theory Spec2Isabelle
  imports Complex_Main
begin

section \<open>Conversation state machine (agent/stateMachine.ts)\<close>

text \<open>
  The state machine is a pure function \<open>nextState\<close> over plain objects.  Optional
  properties of the TypeScript interfaces are \<open>option\<close> fields (\<open>None\<close> is
  \<open>undefined\<close>); string-literal unions are datatypes.  A field name that several
  interfaces share carries a prefix: \<open>in_\<close> for the fields of \<open>StateMachineInput\<close>,
  \<open>bi_\<close> for those of \<open>BookingIntent\<close>; the field \<open>context\<close> is \<open>ctx\<close>.
  Utterance text is a \<open>string\<close> of ASCII characters, on which \<open>toLowerCase\<close>
  maps the letters A to Z to a to z and \<open>includes\<close> is the substring test.
\<close>

datatype State =
  IdentifyContact | ConsentGate | Qualify | ProposeTime | Confirm
  | OptOut | Transfer | Voicemail | End

datatype need_level = high | medium | low

datatype timing_level = this_quarter | next_quarter | later

datatype budget_level = present | unknown | absent

datatype intent_tag =
  identify | consent | qualify | propose | confirm | opt_out | transfer | voicemail | disqualify

record ConversationSlots =
  authority :: "bool option"
  need :: "need_level option"
  timing :: "timing_level option"
  budget_indicator :: "budget_level option"
  confirmed_date :: "string option"
  confirmed_time :: "string option"
  pain_stated :: "bool option"

record MandatoryLines =
  identification :: "bool option"
  purpose :: "bool option"
  consent_to_proceed :: "bool option"
  recording_consent :: "bool option"

record BookingIntent =
  booking_id :: string
  bi_lead_id :: string
  bi_confirmed_date :: string
  bi_confirmed_time :: string
  qualification_flags :: ConversationSlots
  explicit_confirmation :: bool

record ConversationContext =
  call_id :: string
  lead_id :: string
  contact_name :: "string option"
  company_name :: "string option"
  recording_required :: "bool option"
  jurisdiction :: "string option"

record StateMachineInput =
  in_intent :: "intent_tag option"
  in_text :: "string option"
  in_slots :: "ConversationSlots option"
  in_explicit_confirmation :: "bool option"
  in_selected_time :: "string option"

record StateMachineState =
  current :: State
  slots :: ConversationSlots
  mandatory_lines :: MandatoryLines
  ctx :: ConversationContext
  booking_intent :: "BookingIntent option"
  history :: "State list"

text \<open>JavaScript truthiness of an optional boolean and of an optional string.\<close>

definition truthy :: "bool option \<Rightarrow> bool" where
  "truthy b = (case b of None \<Rightarrow> False | Some v \<Rightarrow> v)"

definition truthyStr :: "string option \<Rightarrow> bool" where
  "truthyStr s = (case s of None \<Rightarrow> False | Some v \<Rightarrow> v \<noteq> [])"

definition lowerChar :: "char \<Rightarrow> char" where
  "lowerChar c =
     (case map_of (zip ''ABCDEFGHIJKLMNOPQRSTUVWXYZ'' ''abcdefghijklmnopqrstuvwxyz'') c of
        None \<Rightarrow> c
      | Some l \<Rightarrow> l)"

definition toLowerCase :: "string \<Rightarrow> string" where
  "toLowerCase s = map lowerChar s"

fun startsWith :: "string \<Rightarrow> string \<Rightarrow> bool" where
  "startsWith s [] = True"
| "startsWith [] (p # ps) = False"
| "startsWith (c # cs) (p # ps) = (c = p \<and> startsWith cs ps)"

fun includesStr :: "string \<Rightarrow> string \<Rightarrow> bool" where
  "includesStr [] p = (p = [])"
| "includesStr (c # cs) p = (startsWith (c # cs) p \<or> includesStr cs p)"

definition emptySlots :: ConversationSlots where
  "emptySlots =
     \<lparr>authority = None, need = None, timing = None, budget_indicator = None,
      confirmed_date = None, confirmed_time = None, pain_stated = None\<rparr>"

definition emptyLines :: MandatoryLines where
  "emptyLines =
     \<lparr>identification = None, purpose = None, consent_to_proceed = None,
      recording_consent = None\<rparr>"

definition initialState :: "ConversationContext \<Rightarrow> StateMachineState" where
  "initialState context =
     \<lparr>current = IdentifyContact, slots = emptySlots, mandatory_lines = emptyLines,
      ctx = context, booking_intent = None, history = [IdentifyContact]\<rparr>"

definition checkMandatoryLines :: "StateMachineState \<Rightarrow> StateMachineInput \<Rightarrow> MandatoryLines" where
  "checkMandatoryLines state input =
     (let lines0 = mandatory_lines state;
          lower = toLowerCase (case in_text input of None \<Rightarrow> [] | Some t \<Rightarrow> t);
          lines1 =
            (if (current state = IdentifyContact \<or> current state = ConsentGate)
                \<and> (includesStr lower ''this is'' \<or> includesStr lower ''calling from''
                     \<or> (truthyStr (contact_name (ctx state))
                         \<and> includesStr lower (toLowerCase (the (contact_name (ctx state))))))
             then lines0\<lparr>identification := Some True\<rparr> else lines0);
          lines2 =
            (if (current state = ConsentGate \<or> current state = Qualify)
                \<and> (includesStr lower ''schedule'' \<or> includesStr lower ''meeting''
                     \<or> includesStr lower ''discovery'')
             then lines1\<lparr>purpose := Some True\<rparr> else lines1);
          lines3 =
            (if current state = ConsentGate
                \<and> (in_intent input = Some consent \<or> includesStr lower ''yes''
                     \<or> includesStr lower ''sure'' \<or> includesStr lower ''ok'')
             then lines2\<lparr>consent_to_proceed := Some True\<rparr> else lines2);
          lines4 =
            (if truthy (recording_required (ctx state))
                \<and> (current state = ConsentGate \<or> current state = Qualify)
                \<and> in_intent input = Some consent \<and> includesStr lower ''record''
             then lines3\<lparr>recording_consent := Some True\<rparr> else lines3)
      in lines4)"

definition updateSlots :: "ConversationSlots \<Rightarrow> StateMachineInput \<Rightarrow> ConversationSlots" where
  "updateSlots currentSlots input =
     (let s0 = currentSlots;
          s1 =
            (case in_slots input of
               None \<Rightarrow> s0
             | Some i \<Rightarrow>
                 \<lparr>authority = (if authority i \<noteq> None then authority i else authority s0),
                  need = (if need i \<noteq> None then need i else need s0),
                  timing = (if timing i \<noteq> None then timing i else timing s0),
                  budget_indicator =
                    (if budget_indicator i \<noteq> None then budget_indicator i
                     else budget_indicator s0),
                  confirmed_date =
                    (if confirmed_date i \<noteq> None then confirmed_date i else confirmed_date s0),
                  confirmed_time =
                    (if confirmed_time i \<noteq> None then confirmed_time i else confirmed_time s0),
                  pain_stated =
                    (if pain_stated i \<noteq> None then pain_stated i else pain_stated s0)\<rparr>);
          lower = toLowerCase (case in_text input of None \<Rightarrow> [] | Some t \<Rightarrow> t);
          s2 =
            (if includesStr lower ''decision'' \<or> includesStr lower ''authority''
                \<or> includesStr lower ''decision maker''
             then s1\<lparr>authority := Some True\<rparr> else s1);
          s3 =
            (if includesStr lower ''urgent'' \<or> includesStr lower ''immediately''
                \<or> includesStr lower ''asap''
             then s2\<lparr>timing := Some this_quarter\<rparr> else s2);
          s4 =
            (if includesStr lower ''next quarter'' \<or> includesStr lower ''q2''
                \<or> includesStr lower ''q3'' \<or> includesStr lower ''q4''
             then s3\<lparr>timing := Some next_quarter\<rparr> else s3)
      in s4)"

definition isQualified :: "ConversationSlots \<Rightarrow> bool" where
  "isQualified s =
     (authority s = Some True
      \<and> (need s = Some high \<or> (need s = Some medium \<and> pain_stated s = Some True))
      \<and> (timing s = Some this_quarter \<or> timing s = Some next_quarter)
      \<and> (budget_indicator s = Some present
           \<or> (budget_indicator s = Some unknown \<and> authority s = Some True
               \<and> need s = Some high)))"

text \<open>
  The \<open>switch\<close> statement of \<open>nextState\<close>: the values of \<open>next\<close>, \<open>history\<close>,
  \<open>updatedSlots\<close> and \<open>bookingIntent\<close> after it.
\<close>

definition switchOnCurrent ::
  "StateMachineState \<Rightarrow> StateMachineInput \<Rightarrow> MandatoryLines \<Rightarrow> ConversationSlots
     \<Rightarrow> State \<times> State list \<times> ConversationSlots \<times> BookingIntent option" where
  "switchOnCurrent state input updatedMandatoryLines updatedSlots =
     (let stay = (current state, history state, updatedSlots, booking_intent state);
          goto = (\<lambda>n. (n, history state @ [n], updatedSlots, booking_intent state))
      in
      case current state of
        IdentifyContact \<Rightarrow>
          if truthy (identification updatedMandatoryLines)
             \<and> truthy (purpose updatedMandatoryLines) then goto ConsentGate
          else if in_intent input = Some transfer then goto Transfer
          else if in_intent input = Some voicemail then goto Voicemail
          else stay
      | ConsentGate \<Rightarrow>
          if \<not> truthy (consent_to_proceed updatedMandatoryLines) then stay
          else if truthy (recording_required (ctx state))
                  \<and> \<not> truthy (recording_consent updatedMandatoryLines) then stay
          else if in_intent input = Some opt_out then goto OptOut
          else if in_intent input = Some transfer then goto Transfer
          else goto Qualify
      | Qualify \<Rightarrow>
          if in_intent input = Some opt_out then goto OptOut
          else if in_intent input = Some transfer then goto Transfer
          else if in_intent input = Some disqualify then goto End
          else if isQualified updatedSlots then goto ProposeTime
          else stay
      | ProposeTime \<Rightarrow>
          if in_intent input = Some opt_out then goto OptOut
          else if in_intent input = Some transfer then goto Transfer
          else if in_intent input = Some confirm \<and> truthyStr (in_selected_time input)
                  \<and> truthy (in_explicit_confirmation input)
          then (Confirm, history state @ [Confirm],
                updatedSlots\<lparr>confirmed_time := in_selected_time input,
                              confirmed_date := in_selected_time input\<rparr>,
                booking_intent state)
          else stay
      | Confirm \<Rightarrow>
          if truthy (in_explicit_confirmation input)
             \<and> truthyStr (confirmed_time updatedSlots)
             \<and> truthyStr (confirmed_date updatedSlots)
          then (End, history state @ [End], updatedSlots,
                Some \<lparr>booking_id = ''booking-'' @ call_id (ctx state),
                      bi_lead_id = lead_id (ctx state),
                      bi_confirmed_date = the (confirmed_date updatedSlots),
                      bi_confirmed_time = the (confirmed_time updatedSlots),
                      qualification_flags = updatedSlots,
                      explicit_confirmation = True\<rparr>)
          else if in_intent input = Some opt_out then goto OptOut
          else if in_intent input = Some transfer then goto Transfer
          else stay
      | OptOut \<Rightarrow> stay
      | Transfer \<Rightarrow> stay
      | Voicemail \<Rightarrow> stay
      | End \<Rightarrow> stay)"

definition nextState :: "StateMachineState \<Rightarrow> StateMachineInput \<Rightarrow> StateMachineState" where
  "nextState state input =
     (let updatedMandatoryLines = checkMandatoryLines state input;
          updatedSlots = updateSlots (slots state) input
      in case switchOnCurrent state input updatedMandatoryLines updatedSlots of
           (next, history', slots', bookingIntent) \<Rightarrow>
             \<lparr>current = next, slots = slots', mandatory_lines = updatedMandatoryLines,
              ctx = ctx state, booking_intent = bookingIntent, history = history'\<rparr>)"

definition isTerminalState :: "State \<Rightarrow> bool" where
  "isTerminalState s = (s \<in> {OptOut, Transfer, Voicemail, End})"

text \<open>Feeding a sequence of inputs to the machine, one call of \<open>nextState\<close> per turn.\<close>

definition runInputs :: "StateMachineState \<Rightarrow> StateMachineInput list \<Rightarrow> StateMachineState" where
  "runInputs state inputs = foldl nextState state inputs"


section \<open>Numbers and dates of JavaScript\<close>

text \<open>
  A number that may be \<open>NaN\<close> is an \<open>int option\<close>, \<open>None\<close> for \<open>NaN\<close>: arithmetic with
  \<open>NaN\<close> gives \<open>NaN\<close> and every comparison with \<open>NaN\<close> is false.  A \<open>Date\<close> object is
  its time value in milliseconds since the epoch, \<open>None\<close> for the invalid date.  Time
  values are confined to 8640000000000000 ms on either side of the epoch: the
  constructor and every setter end with \<open>TimeClip\<close>, which turns a value outside that
  range into the invalid date.  The getters of the invalid date return \<open>NaN\<close>, a setter
  leaves it invalid, and its \<open>toISOString\<close> throws a \<open>RangeError\<close>.  The setters used
  by the source act in UTC, where every day has 86400000 ms, so on a valid date they
  are arithmetic on the time value.
\<close>

type_synonym Date = "int option"

datatype js_error = RangeError

definition ltNum :: "int option \<Rightarrow> int option \<Rightarrow> bool" where
  "ltNum a b =
     (case a of None \<Rightarrow> False | Some x \<Rightarrow> (case b of None \<Rightarrow> False | Some y \<Rightarrow> x < y))"

definition leNum :: "int option \<Rightarrow> int option \<Rightarrow> bool" where
  "leNum a b =
     (case a of None \<Rightarrow> False | Some x \<Rightarrow> (case b of None \<Rightarrow> False | Some y \<Rightarrow> x \<le> y))"

definition addNum :: "int option \<Rightarrow> int \<Rightarrow> int option" where
  "addNum a c = (case a of None \<Rightarrow> None | Some x \<Rightarrow> Some (x + c))"

definition subNum :: "int option \<Rightarrow> int option \<Rightarrow> int option" where
  "subNum a b =
     (case a of None \<Rightarrow> None | Some x \<Rightarrow> (case b of None \<Rightarrow> None | Some y \<Rightarrow> Some (x - y)))"

definition TimeClip :: "int \<Rightarrow> Date" where
  "TimeClip t =
     (if - 8640000000000000 \<le> t \<and> t \<le> 8640000000000000 then Some t else None)"

definition HourFromTime :: "int \<Rightarrow> int" where
  "HourFromTime t = (t div 3600000) mod 24"

definition WeekDay :: "int \<Rightarrow> int" where
  \<comment> \<open>0 = Sunday; 1 January 1970 was a Thursday\<close>
  "WeekDay t = (t div 86400000 + 4) mod 7"

definition getUTCHours :: "Date \<Rightarrow> int option" where
  "getUTCHours d = map_option HourFromTime d"

definition getUTCDay :: "Date \<Rightarrow> int option" where
  "getUTCDay d = map_option WeekDay d"

definition addUTCDays :: "int option \<Rightarrow> Date \<Rightarrow> Date" where
  \<comment> \<open>\<open>d.setUTCDate(d.getUTCDate() + k)\<close>\<close>
  "addUTCDays k d =
     (case d of
        None \<Rightarrow> None
      | Some t \<Rightarrow> (case k of None \<Rightarrow> None | Some j \<Rightarrow> TimeClip (t + j * 86400000)))"

definition setUTCHours0 :: "int \<Rightarrow> Date \<Rightarrow> Date" where
  \<comment> \<open>\<open>d.setUTCHours(h, 0, 0, 0)\<close>\<close>
  "setUTCHours0 h d =
     (case d of None \<Rightarrow> None | Some t \<Rightarrow> TimeClip (t - t mod 86400000 + h * 3600000))"

definition addUTCHours :: "int \<Rightarrow> Date \<Rightarrow> Date" where
  \<comment> \<open>\<open>d.setUTCHours(d.getUTCHours() + k)\<close>\<close>
  "addUTCHours k d = (case d of None \<Rightarrow> None | Some t \<Rightarrow> TimeClip (t + k * 3600000))"

definition addUTCMinutes :: "int \<Rightarrow> Date \<Rightarrow> Date" where
  \<comment> \<open>\<open>d.setUTCMinutes(d.getUTCMinutes() + k)\<close>\<close>
  "addUTCMinutes k d = (case d of None \<Rightarrow> None | Some t \<Rightarrow> TimeClip (t + k * 60000))"

definition nextUTCMinute :: "Date \<Rightarrow> Date" where
  \<comment> \<open>\<open>d.setUTCMinutes(d.getUTCMinutes() + 1, 0, 0)\<close>\<close>
  "nextUTCMinute d =
     (case d of None \<Rightarrow> None | Some t \<Rightarrow> TimeClip (t - t mod 60000 + 60000))"

definition toISOString :: "Date \<Rightarrow> js_error + int" where
  \<comment> \<open>the result stands for the string that denotes the time value\<close>
  "toISOString d = (case d of None \<Rightarrow> Inl RangeError | Some t \<Rightarrow> Inr t)"


section \<open>Attempt scheduler (attempts/strategy.ts)\<close>

text \<open>
  An attempt's \<open>timestamp\<close> and the timestamps of a result are the time values their
  RFC 3339 strings denote: \<open>new Date(s)\<close> and \<open>toISOString\<close> convert between the two,
  and a string that does not denote an instant is outside this model.  A quotient such
  as \<open>diffMs / (1000 * 60)\<close> is a real division.  The fields \<open>lead_id\<close> and
  \<open>call_id\<close> of an attempt are \<open>at_lead_id\<close> and \<open>at_call_id\<close>, the field
  \<open>attempt_no\<close> of a result is \<open>sr_attempt_no\<close>, and the outcomes \<open>voicemail\<close>
  and \<open>opt_out\<close> are \<open>voicemail_outcome\<close> and \<open>opt_out_outcome\<close>.
\<close>

datatype attempt_outcome =
  answered | no_answer | busy | voicemail_outcome | failed | opt_out_outcome

record AttemptRecord =
  attempt_id :: string
  at_lead_id :: string
  attempt_no :: int
  timestamp :: int
  outcome :: attempt_outcome
  region :: "string option"
  at_call_id :: "string option"

record ScheduleResult =
  eligible :: bool
  next_attempt_ts :: "int option"
  block_reason :: "string option"
  sr_attempt_no :: "int option"
  retry_after_ts :: "int option"

record time_window =
  w_start :: int
  w_end :: int

definition REGION_TIME_WINDOWS :: "(string \<times> time_window) list" where
  "REGION_TIME_WINDOWS =
     [(''US_EAST'', \<lparr>w_start = 13, w_end = 21\<rparr>),
      (''US_WEST'', \<lparr>w_start = 17, w_end = 1\<rparr>),
      (''EU'', \<lparr>w_start = 8, w_end = 16\<rparr>),
      (''APAC'', \<lparr>w_start = 0, w_end = 8\<rparr>),
      (''DEFAULT'', \<lparr>w_start = 13, w_end = 21\<rparr>)]"

text \<open>
  \<open>REGION_TIME_WINDOWS\<close> is a plain object, so \<open>REGION_TIME_WINDOWS[region]\<close> also
  finds the properties every object inherits from \<open>Object.prototype\<close>.  Such a value is
  truthy, the fallback to \<open>DEFAULT\<close> is not taken, and its \<open>start\<close> and \<open>end\<close> are
  \<open>undefined\<close>; \<open>getTimeWindow\<close> returns \<open>None\<close> for it.
\<close>

definition objectPrototypeKeys :: "string list" where
  "objectPrototypeKeys =
     [''constructor'', ''__proto__'', ''toString'', ''toLocaleString'', ''valueOf'',
      ''hasOwnProperty'', ''isPrototypeOf'', ''propertyIsEnumerable'',
      ''__defineGetter__'', ''__defineSetter__'', ''__lookupGetter__'',
      ''__lookupSetter__'']"

definition getTimeWindow :: "string \<Rightarrow> time_window option" where
  "getTimeWindow r =
     (case map_of REGION_TIME_WINDOWS r of
        Some w \<Rightarrow> Some w
      | None \<Rightarrow>
          if r \<in> set objectPrototypeKeys then None
          else map_of REGION_TIME_WINDOWS ''DEFAULT'')"

definition getAttempts :: "(string \<rightharpoonup> AttemptRecord list) \<Rightarrow> string \<Rightarrow> AttemptRecord list" where
  "getAttempts attemptStore leadId =
     (case attemptStore leadId of None \<Rightarrow> [] | Some xs \<Rightarrow> xs)"

definition recordAttempt ::
  "string \<Rightarrow> (string \<rightharpoonup> AttemptRecord list) \<Rightarrow> AttemptRecord
     \<Rightarrow> (string \<rightharpoonup> AttemptRecord list)" where
  \<comment> \<open>the first argument is the identifier \<open>uuidv4()\<close> returns\<close>
  "recordAttempt uuid attemptStore attempt =
     attemptStore(at_lead_id attempt \<mapsto>
       getAttempts attemptStore (at_lead_id attempt) @ [attempt\<lparr>attempt_id := uuid\<rparr>])"

definition getAttemptsInWindow :: "AttemptRecord list \<Rightarrow> Date \<Rightarrow> Date \<Rightarrow> AttemptRecord list" where
  "getAttemptsInWindow attempts windowStart windowEnd =
     filter (\<lambda>attempt.
        (let attemptTime = TimeClip (timestamp attempt)
         in leNum windowStart attemptTime \<and> ltNum attemptTime windowEnd)) attempts"

definition getAttemptsThisWeek :: "int \<Rightarrow> AttemptRecord list \<Rightarrow> AttemptRecord list" where
  \<comment> \<open>the first argument is the system clock, read by \<open>new Date()\<close>\<close>
  "getAttemptsThisWeek clock attempts =
     (let now = TimeClip clock;
          dayOfWeek = getUTCDay now;
          monday = setUTCHours0 0
                     (addUTCDays (map_option (\<lambda>d. - ((d + 6) mod 7)) dayOfWeek) now);
          nextMonday = addUTCDays (Some 7) monday
      in getAttemptsInWindow attempts monday nextMonday)"

definition getLastAttempt :: "AttemptRecord list \<Rightarrow> AttemptRecord option" where
  \<comment> \<open>\<open>Array.prototype.sort\<close> is stable, as \<open>sort_key\<close> is\<close>
  "getLastAttempt attempts =
     (if attempts = [] then None
      else Some (hd (sort_key (\<lambda>a. - timestamp a) attempts)))"

definition has24HourSpacing :: "AttemptRecord \<Rightarrow> Date \<Rightarrow> bool" where
  "has24HourSpacing lastAttempt now =
     (let lastAttemptTime = TimeClip (timestamp lastAttempt);
          diffMs = subNum now lastAttemptTime
      in case diffMs of
           None \<Rightarrow> False
         | Some d \<Rightarrow> real_of_int d / (1000 * 60 * 60) \<ge> 24)"

definition getNextAttemptNo :: "AttemptRecord list \<Rightarrow> int" where
  "getNextAttemptNo attempts =
     (if attempts = [] then 1
      else (case getLastAttempt attempts of
              None \<Rightarrow> 0
            | Some a \<Rightarrow> if attempt_no a \<noteq> 0 then attempt_no a else 0) + 1)"

definition isVoicemailAllowed :: "int \<Rightarrow> bool" where
  "isVoicemailAllowed attemptNo = (attemptNo = 2)"

definition getNextTimeInWindow :: "Date \<Rightarrow> time_window \<Rightarrow> Date" where
  "getNextTimeInWindow now w =
     (let nextTime = now;
          currentHour = getUTCHours nextTime
      in
      if w_end w < w_start w then
        (if leNum (Some (w_start w)) currentHour \<or> ltNum currentHour (Some (w_end w))
         then nextUTCMinute nextTime
         else if leNum (Some (w_end w)) currentHour then setUTCHours0 (w_start w) nextTime
         else setUTCHours0 (w_start w) nextTime)
      else if ltNum currentHour (Some (w_start w)) then setUTCHours0 (w_start w) nextTime
      else if ltNum currentHour (Some (w_end w)) then nextUTCMinute nextTime
      else setUTCHours0 (w_start w) (addUTCDays (Some 1) nextTime))"

definition getBusyRetryTime :: "AttemptRecord \<Rightarrow> Date \<Rightarrow> Date option" where
  \<comment> \<open>\<open>None\<close> is \<open>undefined\<close>; the date returned may be the invalid date\<close>
  "getBusyRetryTime lastAttempt now =
     (if outcome lastAttempt \<noteq> busy then None
      else
        (let lastAttemptTime = TimeClip (timestamp lastAttempt);
             diffMs = subNum now lastAttemptTime
         in if (case diffMs of
                  None \<Rightarrow> False
                | Some d \<Rightarrow> real_of_int d / (1000 * 60) < 15)
            then Some (addUTCMinutes 15 lastAttemptTime)
            else None))"

definition canCallNow :: "int option \<Rightarrow> time_window \<Rightarrow> bool" where
  "canCallNow currentHour w =
     (if w_end w < w_start w
      then leNum (Some (w_start w)) currentHour \<or> ltNum currentHour (Some (w_end w))
      else leNum (Some (w_start w)) currentHour \<and> ltNum currentHour (Some (w_end w)))"

text \<open>
  \<open>scheduleAttempt clock0 clock1 store leadId region currentTime\<close>: \<open>clock0\<close> is the
  system clock read by \<open>currentTime || new Date()\<close> and \<open>clock1\<close> the one read inside
  \<open>getAttemptsThisWeek\<close>; \<open>currentTime\<close> is \<open>None\<close> when the argument is left out.
  Every timestamp of a result is written by \<open>toISOString\<close>, so the call throws when the
  date it computed is invalid; with an inherited, window-less object for the region the
  computed date is always invalid.
\<close>

definition scheduleAttempt ::
  "int \<Rightarrow> int \<Rightarrow> (string \<rightharpoonup> AttemptRecord list) \<Rightarrow> string \<Rightarrow> string option \<Rightarrow> Date option
     \<Rightarrow> js_error + ScheduleResult" where
  "scheduleAttempt clock0 clock1 attemptStore leadId regionArg currentTime =
     (let r = (case regionArg of None \<Rightarrow> ''DEFAULT'' | Some x \<Rightarrow> x);
          now = (case currentTime of Some d \<Rightarrow> d | None \<Rightarrow> TimeClip clock0);
          attempts = getAttempts attemptStore leadId;
          attemptsThisWeek = getAttemptsThisWeek clock1 attempts;
          lastAttempt = getLastAttempt attempts;
          busyRetry =
            (case lastAttempt of
               None \<Rightarrow> None
             | Some la \<Rightarrow>
                 (case getBusyRetryTime la now of
                    None \<Rightarrow> None
                  | Some d \<Rightarrow> if ltNum now d then Some (la, d) else None))
      in
      if length attemptsThisWeek \<ge> 3 then
        (let dayOfWeek = getUTCDay now;
             monday = setUTCHours0 0
                        (addUTCDays (Some 7)
                           (addUTCDays (map_option (\<lambda>d. - ((d + 6) mod 7)) dayOfWeek) now))
         in case getTimeWindow r of
              None \<Rightarrow> Inl RangeError
            | Some w \<Rightarrow>
                (case toISOString (getNextTimeInWindow monday w) of
                   Inl e \<Rightarrow> Inl e
                 | Inr ts \<Rightarrow>
                     Inr \<lparr>eligible = False, next_attempt_ts = Some ts,
                          block_reason = Some ''WEEKLY_LIMIT_EXCEEDED'',
                          sr_attempt_no = None, retry_after_ts = None\<rparr>))
      else
        (case busyRetry of
           Some (la, d) \<Rightarrow>
             (case toISOString d of
                Inl e \<Rightarrow> Inl e
              | Inr ts \<Rightarrow>
                  Inr \<lparr>eligible = True, next_attempt_ts = Some ts, block_reason = None,
                       sr_attempt_no = Some (attempt_no la), retry_after_ts = Some ts\<rparr>)
         | None \<Rightarrow>
             (case (case lastAttempt of
                      None \<Rightarrow> None
                    | Some la \<Rightarrow>
                        if \<not> has24HourSpacing la now
                           \<and> \<not> (outcome la = busy \<and> getBusyRetryTime la now \<noteq> None)
                        then Some la else None) of
                Some la \<Rightarrow>
                  (let nextTime = addUTCHours 24 (TimeClip (timestamp la))
                   in case getTimeWindow r of
                        None \<Rightarrow> Inl RangeError
                      | Some w \<Rightarrow>
                          (case toISOString (getNextTimeInWindow nextTime w) of
                             Inl e \<Rightarrow> Inl e
                           | Inr ts \<Rightarrow>
                               Inr \<lparr>eligible = False, next_attempt_ts = Some ts,
                                    block_reason = Some ''INSUFFICIENT_SPACING'',
                                    sr_attempt_no = Some (getNextAttemptNo attempts),
                                    retry_after_ts = None\<rparr>))
              | None \<Rightarrow>
                  (case getTimeWindow r of
                     None \<Rightarrow> Inl RangeError
                   | Some w \<Rightarrow>
                       if canCallNow (getUTCHours now) w then
                         (case toISOString now of
                            Inl e \<Rightarrow> Inl e
                          | Inr ts \<Rightarrow>
                              Inr \<lparr>eligible = True, next_attempt_ts = Some ts,
                                   block_reason = None,
                                   sr_attempt_no = Some (getNextAttemptNo attempts),
                                   retry_after_ts = None\<rparr>)
                       else
                         (case toISOString (getNextTimeInWindow now w) of
                            Inl e \<Rightarrow> Inl e
                          | Inr ts \<Rightarrow>
                              Inr \<lparr>eligible = False, next_attempt_ts = Some ts,
                                   block_reason = Some ''OUTSIDE_TIME_WINDOW'',
                                   sr_attempt_no = Some (getNextAttemptNo attempts),
                                   retry_after_ts = None\<rparr>)))))"

definition isVoicemailAllowedForLead :: "(string \<rightharpoonup> AttemptRecord list) \<Rightarrow> string \<Rightarrow> bool" where
  "isVoicemailAllowedForLead attemptStore leadId =
     (let attempts = getAttempts attemptStore leadId;
          nextAttemptNo = getNextAttemptNo attempts
      in isVoicemailAllowed nextAttemptNo)"


section \<open>Calendar reservation engine (calendar/service.ts)\<close>

text \<open>
  Timestamps of holds and events are the strings the caller passes.  What lies outside
  the repository is a parameter, collected in \<open>calendar_env\<close>: the time value of
  \<open>new Date(s)\<close> (\<open>None\<close> for \<open>NaN\<close>), SHA-256 as a hex digest, the regular expression
  test of \<open>rfc3339UtcRegex\<close>, and whether \<open>safeParse\<close> of the two zod schemas
  succeeds.  Every comparison with \<open>NaN\<close> is false.  The fields of a hold that an
  event has too are \<open>hold_manager_id\<close>, \<open>hold_start_utc\<close> and \<open>hold_end_utc\<close>;
  the parameters of \<open>placeHold\<close> carry the prefix \<open>p_\<close>, the fields of a successful
  result of \<open>createEvent\<close> the prefix \<open>ok_\<close>.  A failed call returns its error as
  a \<open>calendar_error\<close>, one constructor for each error message of the source.
\<close>

record CalendarEvent =
  meeting_id :: string
  manager_id :: string
  contact_email :: "string option"
  title :: string
  start_utc :: string
  end_utc :: string
  location :: "string option"
  meeting_url :: "string option"
  timezone :: string
  description :: "string option"
  invitees_emails :: "string list"
  source_system :: string
  iCal_uid :: "string option"

record CalendarHold =
  tentative_id :: string
  hold_manager_id :: string
  hold_start_utc :: string
  hold_end_utc :: string
  created_by :: string
  ttl_seconds :: int

record HoldCacheEntry =
  hold :: CalendarHold
  expires_at :: int

record CalendarStore =
  eventStore :: "string \<rightharpoonup> CalendarEvent"
  holdStore :: "(string \<times> HoldCacheEntry) list"
  managerEvents :: "string \<rightharpoonup> CalendarEvent list"
  managerHolds :: "string \<rightharpoonup> HoldCacheEntry list"

record calendar_env =
  getTime :: "string \<Rightarrow> int option"
  sha256hex :: "string \<Rightarrow> string"
  rfc3339UtcRegex :: "string \<Rightarrow> bool"
  CalendarEventSchema :: "CalendarEvent \<Rightarrow> bool"
  CalendarHoldSchema :: "CalendarHold \<Rightarrow> bool"

record HoldParams =
  p_manager_id :: string
  p_start_utc :: string
  p_end_utc :: string
  p_ttl_seconds :: int


datatype calendar_error =
  TtlOutOfRange | OverlapError | ValidationFailed | SchemaValidationFailed

definition emptyStore :: CalendarStore where
  "emptyStore =
     \<lparr>eventStore = Map.empty, holdStore = [], managerEvents = Map.empty,
      managerHolds = Map.empty\<rparr>"

definition BUFFER_MS :: int where
  "BUFFER_MS = 10 * 60 * 1000"

definition holdsOf :: "CalendarStore \<Rightarrow> string \<Rightarrow> HoldCacheEntry list" where
  \<comment> \<open>\<open>managerHolds.get(managerId) || []\<close>\<close>
  "holdsOf st managerId = (case managerHolds st managerId of None \<Rightarrow> [] | Some hs \<Rightarrow> hs)"

definition eventsOf :: "CalendarStore \<Rightarrow> string \<Rightarrow> CalendarEvent list" where
  \<comment> \<open>\<open>managerEvents.get(managerId) || []\<close>\<close>
  "eventsOf st managerId = (case managerEvents st managerId of None \<Rightarrow> [] | Some es \<Rightarrow> es)"

definition setManagerHolds ::
  "string \<Rightarrow> HoldCacheEntry list \<Rightarrow> (string \<rightharpoonup> HoldCacheEntry list)
     \<Rightarrow> (string \<rightharpoonup> HoldCacheEntry list)" where
  \<comment> \<open>delete the manager's entry when the list is empty, set it otherwise\<close>
  "setManagerHolds managerId updatedHolds m =
     (if updatedHolds = [] then m(managerId := None) else m(managerId \<mapsto> updatedHolds))"

definition expireHold :: "int \<Rightarrow> CalendarStore \<Rightarrow> string \<times> HoldCacheEntry \<Rightarrow> CalendarStore" where
  \<comment> \<open>the body of the loop of \<open>cleanupExpiredHolds\<close>\<close>
  "expireHold now st e =
     (case e of
        (tentativeId, entry) \<Rightarrow>
          if expires_at entry \<le> now then
            (let managerId = hold_manager_id (hold entry);
                 holds = holdsOf st managerId;
                 updatedHolds = filter (\<lambda>h. tentative_id (hold h) \<noteq> tentativeId) holds
             in st\<lparr>holdStore := filter (\<lambda>kv. fst kv \<noteq> tentativeId) (holdStore st),
                   managerHolds := setManagerHolds managerId updatedHolds (managerHolds st)\<rparr>)
          else st)"

definition cleanupExpiredHolds :: "int \<Rightarrow> CalendarStore \<Rightarrow> CalendarStore" where
  \<comment> \<open>the first argument is \<open>Date.now()\<close>\<close>
  "cleanupExpiredHolds now st = foldl (expireHold now) st (holdStore st)"

definition overlapsWithBuffer ::
  "int option \<Rightarrow> int option \<Rightarrow> int option \<Rightarrow> int option \<Rightarrow> bool" where
  "overlapsWithBuffer startWithBuffer endWithBuffer otherStart otherEnd =
     ((ltNum startWithBuffer otherEnd \<and> ltNum otherStart endWithBuffer)
      \<or> (ltNum otherStart endWithBuffer \<and> ltNum startWithBuffer otherEnd))"

definition hasOverlap ::
  "calendar_env \<Rightarrow> int \<Rightarrow> CalendarStore \<Rightarrow> string \<Rightarrow> string \<Rightarrow> string \<Rightarrow> string option
     \<Rightarrow> bool \<times> CalendarStore" where
  \<comment> \<open>the second argument is the \<open>Date.now()\<close> read by the purge before the holds loop\<close>
  "hasOverlap env now st managerId startUtc endUtc excludeTentativeId =
     (let start = getTime env startUtc;
          end = getTime env endUtc;
          startWithBuffer = addNum start (- BUFFER_MS);
          endWithBuffer = addNum end BUFFER_MS;
          events = eventsOf st managerId
      in
      if list_ex (\<lambda>event. overlapsWithBuffer startWithBuffer endWithBuffer
                    (getTime env (start_utc event)) (getTime env (end_utc event))) events
      then (True, st)
      else
        (let st' = cleanupExpiredHolds now st;
             holds = holdsOf st' managerId
         in (list_ex (\<lambda>entry.
                \<not> (truthyStr excludeTentativeId
                    \<and> Some (tentative_id (hold entry)) = excludeTentativeId)
                \<and> overlapsWithBuffer startWithBuffer endWithBuffer
                     (getTime env (hold_start_utc (hold entry)))
                     (getTime env (hold_end_utc (hold entry)))) holds,
             st')))"

text \<open>
  \<open>placeHold env clock tentativeId st params\<close>: \<open>clock k\<close> is the value of the
  \<open>k\<close>-th read of \<open>Date.now()\<close> during the call, and \<open>tentativeId\<close> the identifier
  \<open>uuidv4()\<close> returns.
\<close>

definition placeHold ::
  "calendar_env \<Rightarrow> (nat \<Rightarrow> int) \<Rightarrow> string \<Rightarrow> CalendarStore \<Rightarrow> HoldParams
     \<Rightarrow> (calendar_error + string) \<times> CalendarStore" where
  "placeHold env clock tentativeId st params =
     (if p_ttl_seconds params < 300 \<or> p_ttl_seconds params > 1800 then (Inl TtlOutOfRange, st)
      else
        (let st1 = cleanupExpiredHolds (clock 0) st in
         case hasOverlap env (clock 1) st1 (p_manager_id params) (p_start_utc params)
                (p_end_utc params) None of
           (overlap, st2) \<Rightarrow>
             if overlap then (Inl OverlapError, st2)
             else
               (let h = \<lparr>tentative_id = tentativeId, hold_manager_id = p_manager_id params,
                         hold_start_utc = p_start_utc params, hold_end_utc = p_end_utc params,
                         created_by = ''system'', ttl_seconds = p_ttl_seconds params\<rparr>
                in if \<not> CalendarHoldSchema env h then (Inl ValidationFailed, st2)
                   else
                     (let expiresAt = clock 2 + p_ttl_seconds params * 1000;
                          entry = \<lparr>hold = h, expires_at = expiresAt\<rparr>;
                          holds = holdsOf st2 (p_manager_id params)
                      in (Inr tentativeId,
                          st2\<lparr>holdStore :=
                                 (if list_ex (\<lambda>kv. fst kv = tentativeId) (holdStore st2)
                                  then map (\<lambda>kv. if fst kv = tentativeId
                                                  then (tentativeId, entry) else kv)
                                         (holdStore st2)
                                  else holdStore st2 @ [(tentativeId, entry)]),
                               managerHolds :=
                                 (managerHolds st2)(p_manager_id params \<mapsto> holds @ [entry])\<rparr>)))))"








section \<open>The words of the specification, and example inputs\<close>

text \<open>
  The qualification predicate as the specification writes it (its \<open>this-period\<close> and
  \<open>next-period\<close> are the source's \<open>this_quarter\<close> and \<open>next_quarter\<close>).
\<close>

definition isQualified_spec :: "ConversationSlots \<Rightarrow> bool" where
  "isQualified_spec s =
     (authority s = Some True
      \<and> (need s = Some high \<or> (need s = Some medium \<and> pain_stated s = Some True))
      \<and> timing s \<in> {Some this_quarter, Some next_quarter}
      \<and> (budget_indicator s = Some present
           \<or> (budget_indicator s = Some unknown \<and> authority s = Some True
               \<and> need s = Some high)))"

text \<open>The terminal state that matches an exit intent.\<close>

definition exitState :: "intent_tag \<Rightarrow> State" where
  "exitState t = (if t = opt_out then OptOut else if t = transfer then Transfer else Voicemail)"

text \<open>
  The conditions under which a state's own rule is checked before the exit intents:
  both disclosures delivered in \<open>IdentifyContact\<close>, the consent gate passed in
  \<open>ConsentGate\<close>, and a confirmed booking in \<open>Confirm\<close>.
\<close>

definition identifyDone :: "StateMachineState \<Rightarrow> StateMachineInput \<Rightarrow> bool" where
  "identifyDone s i =
     (truthy (identification (checkMandatoryLines s i))
      \<and> truthy (purpose (checkMandatoryLines s i)))"

definition consentGateOpen :: "StateMachineState \<Rightarrow> StateMachineInput \<Rightarrow> bool" where
  "consentGateOpen s i =
     (truthy (consent_to_proceed (checkMandatoryLines s i))
      \<and> (truthy (recording_required (ctx s))
           \<longrightarrow> truthy (recording_consent (checkMandatoryLines s i))))"

definition confirmFires :: "StateMachineState \<Rightarrow> StateMachineInput \<Rightarrow> bool" where
  "confirmFires s i =
     (truthy (in_explicit_confirmation i)
      \<and> truthyStr (confirmed_time (updateSlots (slots s) i))
      \<and> truthyStr (confirmed_date (updateSlots (slots s) i)))"

text \<open>A state from which \<open>ConsentGate\<close> has not been reached and cannot be.\<close>

definition preConsent :: "StateMachineState \<Rightarrow> bool" where
  "preConsent s =
     (current s \<in> {IdentifyContact, Transfer, Voicemail}
      \<and> \<not> truthy (purpose (mandatory_lines s)))"

text \<open>The context and the utterances of the repository's state machine tests.\<close>

definition exContext :: ConversationContext where
  "exContext =
     \<lparr>call_id = ''550e8400-e29b-41d4-a716-446655440000'', lead_id = ''00Q1234567890ABC'',
      contact_name = Some ''John Doe'', company_name = Some ''Acme Corp'',
      recording_required = Some False, jurisdiction = None\<rparr>"

definition noInput :: StateMachineInput where
  "noInput =
     \<lparr>in_intent = None, in_text = None, in_slots = None,
      in_explicit_confirmation = None, in_selected_time = None\<rparr>"

definition exStateAt :: "State \<Rightarrow> StateMachineState" where
  "exStateAt st = (initialState exContext)\<lparr>current := st\<rparr>"

definition exIdentifyInput :: StateMachineInput where
  "exIdentifyInput =
     noInput\<lparr>in_intent := Some identify,
       in_text := Some (''Hello, this is John Doe from Acme Corp. ''
                        @ ''I am calling to schedule a discovery meeting.'')\<rparr>"

definition exConfirmState :: StateMachineState where
  "exConfirmState =
     \<lparr>current = Confirm,
      slots = emptySlots\<lparr>confirmed_date := Some ''2024-03-15T19:00:00.000Z'',
                          confirmed_time := Some ''2024-03-15T19:00:00.000Z''\<rparr>,
      mandatory_lines = emptyLines, ctx = exContext, booking_intent = None,
      history = [IdentifyContact, ConsentGate, Qualify, ProposeTime, Confirm]\<rparr>"

definition exAmbiguousInputs :: "StateMachineInput list" where
  "exAmbiguousInputs =
     [noInput\<lparr>in_text := Some ''That sounds good''\<rparr>,
      noInput\<lparr>in_text := Some ''I guess so'', in_explicit_confirmation := Some False\<rparr>,
      noInput\<lparr>in_intent := Some confirm\<rparr>]"

definition exConfirmInput :: StateMachineInput where
  "exConfirmInput =
     noInput\<lparr>in_text := Some ''Yes, I confirm Tuesday at 2 PM.'',
       in_explicit_confirmation := Some True\<rparr>"

definition exBoundarySlots :: ConversationSlots where
  "exBoundarySlots =
     \<lparr>authority = Some True, need = Some medium, timing = Some this_quarter,
      budget_indicator = Some present, confirmed_date = None, confirmed_time = None,
      pain_stated = Some False\<rparr>"

definition exBooking :: BookingIntent where
  "exBooking =
     \<lparr>booking_id = ''booking-550e8400-e29b-41d4-a716-446655440000'',
      bi_lead_id = ''00Q1234567890ABC'',
      bi_confirmed_date = ''2024-03-15T19:00:00.000Z'',
      bi_confirmed_time = ''2024-03-15T19:00:00.000Z'',
      qualification_flags = slots exConfirmState,
      explicit_confirmation = True\<rparr>"

definition exIntentInput :: "intent_tag \<Rightarrow> StateMachineInput" where
  "exIntentInput t = noInput\<lparr>in_intent := Some t\<rparr>"

definition exSlotsInput :: "ConversationSlots \<Rightarrow> StateMachineInput" where
  "exSlotsInput sl = noInput\<lparr>in_slots := Some sl\<rparr>"

text \<open>
  The state the repository's test of the opt-out path expects once the caller is
  identified, and the opt-out utterance of that test.
\<close>

definition exConsentGateState :: StateMachineState where
  "exConsentGateState =
     \<lparr>current = ConsentGate, slots = emptySlots,
      mandatory_lines = emptyLines\<lparr>identification := Some True, purpose := Some True\<rparr>,
      ctx = exContext, booking_intent = None,
      history = [IdentifyContact, ConsentGate]\<rparr>"

definition exOptOutInput :: StateMachineInput where
  "exOptOutInput =
     noInput\<lparr>in_intent := Some opt_out, in_text := Some ''Please remove me from your list.''\<rparr>"

text \<open>
  Words of the specification about the scheduler.  \<open>isoWeekStart t\<close> is Monday
  00:00 UTC of the ISO week that contains \<open>t\<close>; the attempts of that week are those
  from it up to the next Monday.  \<open>evaluationTime\<close> is the date the scheduler evaluates
  at, \<open>regionOrDefault\<close> the region it looks up, \<open>regionWindow\<close> the window of a
  region, and \<open>inDateRange\<close> holds of the time values a \<open>Date\<close> can have.
\<close>

definition isoWeekStart :: "int \<Rightarrow> int" where
  "isoWeekStart t = 86400000 * (t div 86400000 - (t div 86400000 + 3) mod 7)"

definition attemptsInIsoWeek :: "int \<Rightarrow> AttemptRecord list \<Rightarrow> AttemptRecord list" where
  "attemptsInIsoWeek t attempts =
     filter (\<lambda>a. isoWeekStart t \<le> timestamp a
                 \<and> timestamp a < isoWeekStart t + 7 * 86400000) attempts"

definition evaluationTime :: "int \<Rightarrow> Date option \<Rightarrow> Date" where
  "evaluationTime clock0 currentTime =
     (case currentTime of Some d \<Rightarrow> d | None \<Rightarrow> TimeClip clock0)"

definition regionOrDefault :: "string option \<Rightarrow> string" where
  "regionOrDefault regionArg = (case regionArg of None \<Rightarrow> ''DEFAULT'' | Some x \<Rightarrow> x)"


definition inDateRange :: "int \<Rightarrow> bool" where
  "inDateRange t = (- 8640000000000000 \<le> t \<and> t \<le> 8640000000000000)"



text \<open>
  Whether an hour of the day lies in a daily window, which may wrap past midnight; and
  the instant the scheduler proposes for an instant \<open>t\<close>: the start of the minute after
  \<open>t\<close> when the hour of \<open>t\<close> lies in the window, and otherwise the start of the window
  on the day of \<open>t\<close> when \<open>t\<close> is before it, on the following day when not.
\<close>

definition hourInWindow :: "int \<Rightarrow> time_window \<Rightarrow> bool" where
  "hourInWindow h w =
     (if w_end w < w_start w then w_start w \<le> h \<or> h < w_end w
      else w_start w \<le> h \<and> h < w_end w)"

definition proposedInstant :: "int \<Rightarrow> time_window \<Rightarrow> int" where
  "proposedInstant t w =
     (if hourInWindow (HourFromTime t) w then t - t mod 60000 + 60000
      else if HourFromTime t < w_start w then t - t mod 86400000 + w_start w * 3600000
      else t - t mod 86400000 + 86400000 + w_start w * 3600000)"

text \<open>
  Attempt histories, recorded with \<open>recordAttempt\<close>: those of the repository's
  scheduler tests, and variations of them.  \<open>exFriday\<close> is 2024-03-15T14:00:00.000Z,
  a Friday; the Monday of its week is 2024-03-11 and the following Monday 2024-03-18
  (1710720000000).  The last instant a \<open>Date\<close> can hold is 8640000000000000,
  which is +275760-09-13T00:00:00.000Z.
\<close>

definition exFriday :: int where
  "exFriday = 1710511200000"

definition exAttempt :: "int \<Rightarrow> int \<Rightarrow> attempt_outcome \<Rightarrow> AttemptRecord" where
  "exAttempt n t oc =
     \<lparr>attempt_id = [], at_lead_id = ''lead-1'', attempt_no = n, timestamp = t,
      outcome = oc, region = None, at_call_id = None\<rparr>"

definition exThreeAttempts :: "string \<rightharpoonup> AttemptRecord list" where
  \<comment> \<open>no answer on Monday, Tuesday and Wednesday of that week at 14:00\<close>
  "exThreeAttempts =
     recordAttempt ''c''
       (recordAttempt ''b''
          (recordAttempt ''a'' Map.empty (exAttempt 1 1710165600000 no_answer))
          (exAttempt 2 1710252000000 no_answer))
       (exAttempt 3 1710338400000 no_answer)"

definition exBusyOnce :: "string \<rightharpoonup> AttemptRecord list" where
  "exBusyOnce = recordAttempt ''a'' Map.empty (exAttempt 1 exFriday busy)"

definition exNoAnswerOnce :: "string \<rightharpoonup> AttemptRecord list" where
  "exNoAnswerOnce = recordAttempt ''a'' Map.empty (exAttempt 1 exFriday no_answer)"


definition exTwoAtOneInstant :: "string \<rightharpoonup> AttemptRecord list" where
  \<comment> \<open>attempts 1 and 2 recorded with the same millisecond timestamp\<close>
  "exTwoAtOneInstant =
     recordAttempt ''b''
       (recordAttempt ''a'' Map.empty (exAttempt 1 exFriday no_answer))
       (exAttempt 2 exFriday voicemail_outcome)"

definition exBusyAtOneInstant :: "string \<rightharpoonup> AttemptRecord list" where
  \<comment> \<open>attempt 1 unanswered and attempt 2 busy, with the same millisecond timestamp\<close>
  "exBusyAtOneInstant =
     recordAttempt ''b''
       (recordAttempt ''a'' Map.empty (exAttempt 1 exFriday no_answer))
       (exAttempt 2 exFriday busy)"



text \<open>
  The reservations of a manager that a call of \<open>placeHold\<close> sees: the manager's
  events and the holds that are left after the call's purges of expired holds, each as
  the pair of the time values of its start and end.
\<close>

definition liveReservations ::
  "calendar_env \<Rightarrow> (nat \<Rightarrow> int) \<Rightarrow> CalendarStore \<Rightarrow> string \<Rightarrow> (int option \<times> int option) list" where
  "liveReservations env clock st managerId =
     map (\<lambda>ev. (getTime env (start_utc ev), getTime env (end_utc ev))) (eventsOf st managerId)
     @ map (\<lambda>h. (getTime env (hold_start_utc (hold h)), getTime env (hold_end_utc (hold h))))
         (holdsOf (cleanupExpiredHolds (clock 1) (cleanupExpiredHolds (clock 0) st)) managerId)"

text \<open>
  Whether a candidate with start and end time values \<open>a\<close> and \<open>b\<close> conflicts with a
  reservation, by the test \<open>hasOverlap\<close> applies to events and to holds.
\<close>

definition conflictsWith :: "int option \<Rightarrow> int option \<Rightarrow> int option \<times> int option \<Rightarrow> bool" where
  "conflictsWith a b r =
     overlapsWithBuffer (addNum a (- BUFFER_MS)) (addNum b BUFFER_MS) (fst r) (snd r)"

text \<open>
  An environment for examples: timestamps on 2024-03-15 from 13:19 to 15:11 UTC with
  their time values, validators that accept everything, and for every input the SHA-256
  digest of the identifier of \<open>exEvent\<close> followed by its start timestamp.
\<close>

definition exGetTime :: "string \<Rightarrow> int option" where
  "exGetTime =
     map_of
       [(''2024-03-15T13:19:00.000Z'', 1710508740000),
        (''2024-03-15T13:49:00.000Z'', 1710510540000),
        (''2024-03-15T13:51:00.000Z'', 1710510660000),
        (''2024-03-15T14:00:00.000Z'', 1710511200000),
        (''2024-03-15T14:09:00.000Z'', 1710511740000),
        (''2024-03-15T14:21:00.000Z'', 1710512460000),
        (''2024-03-15T14:30:00.000Z'', 1710513000000),
        (''2024-03-15T14:39:00.000Z'', 1710513540000),
        (''2024-03-15T14:41:00.000Z'', 1710513660000),
        (''2024-03-15T15:11:00.000Z'', 1710515460000)]"

definition exEnv :: calendar_env where
  "exEnv =
     \<lparr>getTime = exGetTime,
      sha256hex = (\<lambda>s. ''dd8f157711aa3fca138a0a7e0d8d702907e011a2cb91488d101f2d1818827411''),
      rfc3339UtcRegex = (\<lambda>s. True),
      CalendarEventSchema = (\<lambda>e. True),
      CalendarHoldSchema = (\<lambda>h. True)\<rparr>"

definition exHoldId1 :: string where
  "exHoldId1 = ''7c9e6679-7425-40de-944b-e07fc1f90ae7''"

definition exHoldId2 :: string where
  "exHoldId2 = ''3f2b8c1e-5d4a-4e6f-9a7b-1c2d3e4f5a6b''"

definition exManager :: string where
  "exManager = ''005123456789XYZ''"


definition exHoldParams :: "string \<Rightarrow> string \<Rightarrow> HoldParams" where
  "exHoldParams s e =
     \<lparr>p_manager_id = exManager, p_start_utc = s, p_end_utc = e, p_ttl_seconds = 1800\<rparr>"

definition exClock :: "nat \<Rightarrow> int" where
  \<comment> \<open>2024-03-15T12:00:00.000Z at every read\<close>
  "exClock k = 1710504000000"

definition exOneHold :: CalendarStore where
  \<comment> \<open>a hold from 14:00 to 14:30, placed on the empty store\<close>
  "exOneHold =
     snd (placeHold exEnv exClock exHoldId1 emptyStore
            (exHoldParams ''2024-03-15T14:00:00.000Z'' ''2024-03-15T14:30:00.000Z''))"

section \<open>Properties of the state machine\<close>

lemma nextState_lines: "mandatory_lines (nextState s i) = checkMandatoryLines s i"
  by (simp add: nextState_def Let_def split: prod.splits)

lemma purpose_unchanged_outside:
  "current s \<noteq> ConsentGate \<Longrightarrow> current s \<noteq> Qualify \<Longrightarrow>
   purpose (checkMandatoryLines s i) = purpose (mandatory_lines s)"
  by (simp add: checkMandatoryLines_def Let_def)

lemma nextState_from_identify:
  assumes "current s = IdentifyContact"
  shows "current (nextState s i) =
     (if truthy (identification (checkMandatoryLines s i))
         \<and> truthy (purpose (checkMandatoryLines s i)) then ConsentGate
      else if in_intent i = Some transfer then Transfer
      else if in_intent i = Some voicemail then Voicemail else IdentifyContact)"
  using assms by (simp add: nextState_def switchOnCurrent_def Let_def)

lemma nextState_terminal:
  "isTerminalState (current s) \<Longrightarrow> current (nextState s i) = current s"
  by (cases "current s") (simp_all add: nextState_def switchOnCurrent_def Let_def isTerminalState_def)

lemma confirm_stays:
  assumes "current s = Confirm" "in_explicit_confirmation i \<noteq> Some True"
    "in_intent i \<noteq> Some opt_out" "in_intent i \<noteq> Some transfer"
  shows "current (nextState s i) = Confirm
     \<and> booking_intent (nextState s i) = booking_intent s"
  using assms
  by (cases "in_explicit_confirmation i")
    (auto simp: nextState_def switchOnCurrent_def Let_def truthy_def)

lemma confirm_run_stays:
  assumes "current s = Confirm"
    "\<forall>i\<in>set inputs. in_explicit_confirmation i \<noteq> Some True
        \<and> in_intent i \<noteq> Some opt_out \<and> in_intent i \<noteq> Some transfer"
  shows "current (runInputs s inputs) = Confirm
     \<and> booking_intent (runInputs s inputs) = booking_intent s"
  using assms
proof (induction inputs arbitrary: s)
  case Nil
  then show ?case by (simp add: runInputs_def)
next
  case (Cons i inputs)
  have st: "current (nextState s i) = Confirm
      \<and> booking_intent (nextState s i) = booking_intent s"
    using Cons.prems by (intro confirm_stays) auto
  have "current (runInputs (nextState s i) inputs) = Confirm \<and>
        booking_intent (runInputs (nextState s i) inputs) = booking_intent (nextState s i)"
    using Cons.prems st by (intro Cons.IH) auto
  then show ?case using st by (simp add: runInputs_def)
qed

lemma nextState_intent:
  "booking_intent (nextState s i) = Some b \<Longrightarrow>
   booking_intent s = Some b \<or> explicit_confirmation b"
  by (cases "current s") (auto simp: nextState_def switchOnCurrent_def Let_def split: if_splits)

lemma run_intent:
  "booking_intent (runInputs s inputs) = Some b \<Longrightarrow>
   booking_intent s = Some b \<or> explicit_confirmation b"
proof (induction inputs arbitrary: s)
  case Nil
  then show ?case by (simp add: runInputs_def)
next
  case (Cons i inputs)
  then have "booking_intent (nextState s i) = Some b \<or> explicit_confirmation b"
    by (simp add: runInputs_def)
  then show ?case using nextState_intent by blast
qed

text \<open>
  C1.  From a state in \<open>Confirm\<close>, any number of inputs whose \<open>explicit_confirmation\<close>
  is not \<open>true\<close> and whose intent is neither \<open>opt_out\<close> nor \<open>transfer\<close> leave the
  machine in \<open>Confirm\<close> with its \<open>booking_intent\<close> as it was, so undefined when it was
  undefined.  And every booking intent found after a run is the one the run started
  with or has \<open>explicit_confirmation = true\<close>.
\<close>

theorem no_booking_without_explicit_confirmation:
  "(current s = Confirm
    \<and> (\<forall>i\<in>set inputs. in_explicit_confirmation i \<noteq> Some True
          \<and> in_intent i \<noteq> Some opt_out \<and> in_intent i \<noteq> Some transfer)
    \<longrightarrow> current (runInputs s inputs) = Confirm
        \<and> booking_intent (runInputs s inputs) = booking_intent s
        \<and> (booking_intent s = None \<longrightarrow> booking_intent (runInputs s inputs) = None))
   \<and> (booking_intent (runInputs s' inputs') = Some b
        \<longrightarrow> booking_intent s' = Some b \<or> explicit_confirmation b = True)"
proof (intro conjI impI)
  assume a: "current s = Confirm
    \<and> (\<forall>i\<in>set inputs. in_explicit_confirmation i \<noteq> Some True
          \<and> in_intent i \<noteq> Some opt_out \<and> in_intent i \<noteq> Some transfer)"
  have r: "current (runInputs s inputs) = Confirm
     \<and> booking_intent (runInputs s inputs) = booking_intent s"
    by (rule confirm_run_stays) (use a in blast)+
  show "current (runInputs s inputs) = Confirm" using r by simp
  show "booking_intent (runInputs s inputs) = booking_intent s" using r by simp
  assume "booking_intent s = None"
  then show "booking_intent (runInputs s inputs) = None" using r by simp
next
  assume "booking_intent (runInputs s' inputs') = Some b"
  then show "booking_intent s' = Some b \<or> explicit_confirmation b = True"
    using run_intent[of s' inputs' b] by simp
qed


lemma exConfirm_step:
  "nextState exConfirmState exConfirmInput =
     exConfirmState\<lparr>current := End, booking_intent := Some exBooking,
        history := history exConfirmState @ [End]\<rparr>"
  by (simp add: nextState_def switchOnCurrent_def checkMandatoryLines_def updateSlots_def
      exConfirmState_def exConfirmInput_def noInput_def exBooking_def exContext_def
      emptySlots_def emptyLines_def truthy_def truthyStr_def toLowerCase_def lowerChar_def
      Let_def)

theorem no_booking_without_explicit_confirmation_witness:
  "current exConfirmState = Confirm
   \<and> booking_intent exConfirmState = None
   \<and> list_all (\<lambda>i. in_explicit_confirmation i \<noteq> Some True
          \<and> in_intent i \<noteq> Some opt_out \<and> in_intent i \<noteq> Some transfer) exAmbiguousInputs
   \<and> current (runInputs exConfirmState exAmbiguousInputs) = Confirm
   \<and> booking_intent (runInputs exConfirmState exAmbiguousInputs) = None
   \<and> booking_intent (runInputs exConfirmState [exConfirmInput]) = Some exBooking
   \<and> explicit_confirmation exBooking = True"
proof -
  have a: "current exConfirmState = Confirm" "booking_intent exConfirmState = None"
    by (simp_all add: exConfirmState_def)
  have b: "\<forall>i\<in>set exAmbiguousInputs. in_explicit_confirmation i \<noteq> Some True
          \<and> in_intent i \<noteq> Some opt_out \<and> in_intent i \<noteq> Some transfer"
    by (simp add: exAmbiguousInputs_def noInput_def)
  have c: "booking_intent (runInputs exConfirmState [exConfirmInput]) = Some exBooking"
    by (simp add: runInputs_def exConfirm_step)
  have "booking_intent exConfirmState \<noteq> Some exBooking" using a by simp
  then show ?thesis
    using no_booking_without_explicit_confirmation
      [of exConfirmState exAmbiguousInputs exConfirmState "[exConfirmInput]" exBooking] a b c
    by (simp add: list_all_iff)
qed

lemma preConsent_step: "preConsent s \<Longrightarrow> preConsent (nextState s i)"
  unfolding preConsent_def
  apply (cases "current s = IdentifyContact")
   apply (simp add: nextState_from_identify nextState_lines purpose_unchanged_outside)
  apply (auto simp: nextState_terminal isTerminalState_def nextState_lines
      purpose_unchanged_outside)
  done

lemma preConsent_run: "preConsent s \<Longrightarrow> preConsent (runInputs s inputs)"
  by (induction inputs arbitrary: s) (simp_all add: runInputs_def preConsent_step)

lemma preConsent_initial: "preConsent (initialState c)"
  by (simp add: preConsent_def initialState_def emptyLines_def truthy_def)

text \<open>
  C2.  The purpose line is only inferred while the machine is in \<open>ConsentGate\<close> or
  \<open>Qualify\<close>, and leaving \<open>IdentifyContact\<close> for \<open>ConsentGate\<close> needs it.  So from
  the initial state no sequence of inputs reaches \<open>ConsentGate\<close> or sets the purpose
  line: the machine is in \<open>IdentifyContact\<close>, \<open>Transfer\<close> or \<open>Voicemail\<close>.  The
  opening utterance of the repository's own tests, which identifies the caller and
  states the purpose, leaves the machine in \<open>IdentifyContact\<close>.
\<close>

theorem consent_gate_unreachable_from_initial_state:
  "current (runInputs (initialState c) inputs) \<noteq> ConsentGate
   \<and> purpose (mandatory_lines (runInputs (initialState c) inputs)) \<noteq> Some True
   \<and> current (nextState (initialState exContext) exIdentifyInput) = IdentifyContact
   \<and> purpose (mandatory_lines (nextState (initialState exContext) exIdentifyInput)) = None"
proof -
  have r: "preConsent (runInputs (initialState c) inputs)"
    by (rule preConsent_run[OF preConsent_initial])
  then have a: "current (runInputs (initialState c) inputs) \<noteq> ConsentGate"
    by (auto simp: preConsent_def)
  have a': "purpose (mandatory_lines (runInputs (initialState c) inputs)) \<noteq> Some True"
    using r by (auto simp: preConsent_def truthy_def)
  have p: "purpose (mandatory_lines (nextState (initialState exContext) exIdentifyInput)) = None"
    by (simp add: nextState_lines purpose_unchanged_outside initialState_def emptyLines_def)
  have "preConsent (nextState (initialState exContext) exIdentifyInput)"
    by (rule preConsent_step[OF preConsent_initial])
  moreover have "in_intent exIdentifyInput = Some identify"
    by (simp add: exIdentifyInput_def noInput_def)
  ultimately have b:
    "current (nextState (initialState exContext) exIdentifyInput) = IdentifyContact"
    by (simp add: nextState_from_identify initialState_def preConsent_def split: if_splits)
  show ?thesis using a a' b p by simp
qed

lemma exStateAt_simps:
  "current (exStateAt st) = st" "slots (exStateAt st) = emptySlots"
  "mandatory_lines (exStateAt st) = emptyLines" "ctx (exStateAt st) = exContext"
  "booking_intent (exStateAt st) = None"
  by (simp_all add: exStateAt_def initialState_def)

lemma noInput_lines:
  "current s \<noteq> ConsentGate \<Longrightarrow> in_text i = None \<Longrightarrow>
   checkMandatoryLines s i = mandatory_lines s"
  by (auto simp: checkMandatoryLines_def toLowerCase_def Let_def truthyStr_def
      split: option.splits)

lemma exIntentInput_simps:
  "in_intent (exIntentInput t) = Some t" "in_text (exIntentInput t) = None"
  "in_slots (exIntentInput t) = None" "in_explicit_confirmation (exIntentInput t) = None"
  by (simp_all add: exIntentInput_def noInput_def)

text \<open>
  Where the exit intents are handled.  An \<open>opt_out\<close> or \<open>transfer\<close> intent moves the
  machine at once to \<open>OptOut\<close> or \<open>Transfer\<close> from \<open>Qualify\<close> and \<open>ProposeTime\<close>;
  from \<open>Confirm\<close> when the input does not complete the booking; and from
  \<open>ConsentGate\<close> only when the consent gate is passed by the same input.  A
  \<open>transfer\<close> or \<open>voicemail\<close> intent moves it at once to \<open>Transfer\<close> or
  \<open>Voicemail\<close> from \<open>IdentifyContact\<close> when the two disclosures are not both
  delivered.  Only \<open>IdentifyContact\<close> has a branch for the \<open>voicemail\<close> intent, and
  it has none for \<open>opt_out\<close>.
\<close>

lemma exit_intents_handled:
  "in_intent i = Some t \<Longrightarrow>
   (current s \<in> {Qualify, ProposeTime} \<and> t \<in> {opt_out, transfer}
      \<longrightarrow> current (nextState s i) = exitState t)
   \<and> (current s = Confirm \<and> t \<in> {opt_out, transfer} \<and> \<not> confirmFires s i
      \<longrightarrow> current (nextState s i) = exitState t)
   \<and> (current s = ConsentGate \<and> t \<in> {opt_out, transfer} \<and> consentGateOpen s i
      \<longrightarrow> current (nextState s i) = exitState t)
   \<and> (current s = IdentifyContact \<and> t \<in> {transfer, voicemail} \<and> \<not> identifyDone s i
      \<longrightarrow> current (nextState s i) = exitState t)"
proof (cases "current s")
  case IdentifyContact
  assume "in_intent i = Some t"
  with IdentifyContact show ?thesis
    by (auto simp: nextState_def switchOnCurrent_def Let_def exitState_def identifyDone_def)
next
  case ConsentGate
  assume "in_intent i = Some t"
  with ConsentGate show ?thesis
    by (auto simp: nextState_def switchOnCurrent_def Let_def exitState_def
        consentGateOpen_def)
next
  case Qualify
  assume "in_intent i = Some t"
  with Qualify show ?thesis
    by (auto simp: nextState_def switchOnCurrent_def Let_def exitState_def)
next
  case ProposeTime
  assume "in_intent i = Some t"
  with ProposeTime show ?thesis
    by (auto simp: nextState_def switchOnCurrent_def Let_def exitState_def)
next
  case Confirm
  assume "in_intent i = Some t"
  with Confirm show ?thesis
    by (auto simp: nextState_def switchOnCurrent_def Let_def exitState_def confirmFires_def)
qed simp_all

lemma voicemail_ignored_in_qualify:
  "current (nextState (exStateAt Qualify) (exIntentInput voicemail)) = Qualify"
  by (simp add: nextState_def switchOnCurrent_def Let_def exStateAt_simps
      exIntentInput_simps isQualified_def updateSlots_def emptySlots_def toLowerCase_def)

lemma consent_gate_waits_for_consent:
  assumes "current s = ConsentGate" "\<not> consentGateOpen s i"
  shows "current (nextState s i) = ConsentGate"
  using assms
  by (auto simp: nextState_def switchOnCurrent_def Let_def consentGateOpen_def)

lemma identify_has_no_opt_out:
  assumes "current s = IdentifyContact"
  shows "current (nextState s i) \<noteq> OptOut"
  using assms by (simp add: nextState_from_identify)

lemma exOptOutInput_closed: "\<not> consentGateOpen exConsentGateState exOptOutInput"
  by (simp add: consentGateOpen_def checkMandatoryLines_def exConsentGateState_def
      exOptOutInput_def noInput_def exContext_def emptyLines_def truthy_def truthyStr_def
      toLowerCase_def lowerChar_def Let_def)

text \<open>
  C4 fails on the code.  In \<open>ConsentGate\<close> the exit intents are looked at only after
  the consent checks, so an \<open>opt_out\<close> or \<open>transfer\<close> intent whose input does not
  also give consent leaves the machine in \<open>ConsentGate\<close>: the opt-out utterance of the
  repository's test, in the state that test expects, does not lead to \<open>OptOut\<close>, and
  neither does a bare \<open>transfer\<close> intent lead to \<open>Transfer\<close>.  In
  \<open>IdentifyContact\<close> the same opt-out leaves the machine in \<open>IdentifyContact\<close>.
\<close>

theorem opt_out_waits_for_consent:
  "current exConsentGateState = ConsentGate
   \<and> in_intent exOptOutInput = Some opt_out
   \<and> current (nextState exConsentGateState exOptOutInput) = ConsentGate
   \<and> current (nextState exConsentGateState (exIntentInput transfer)) = ConsentGate
   \<and> current (exStateAt IdentifyContact) = IdentifyContact
   \<and> current (nextState (exStateAt IdentifyContact) exOptOutInput) = IdentifyContact"
proof -
  have c: "current exConsentGateState = ConsentGate" by (simp add: exConsentGateState_def)
  have i: "in_intent exOptOutInput = Some opt_out" by (simp add: exOptOutInput_def noInput_def)
  have a: "current (nextState exConsentGateState exOptOutInput) = ConsentGate"
    by (rule consent_gate_waits_for_consent[OF c exOptOutInput_closed])
  have "\<not> consentGateOpen exConsentGateState (exIntentInput transfer)"
    by (simp add: consentGateOpen_def checkMandatoryLines_def exConsentGateState_def
        exIntentInput_def noInput_def exContext_def emptyLines_def truthy_def truthyStr_def
        toLowerCase_def Let_def)
  then have b: "current (nextState exConsentGateState (exIntentInput transfer)) = ConsentGate"
    by (rule consent_gate_waits_for_consent[OF c])
  have p: "purpose (checkMandatoryLines (exStateAt IdentifyContact) exOptOutInput) = None"
    by (simp add: purpose_unchanged_outside exStateAt_simps emptyLines_def)
  have d: "current (nextState (exStateAt IdentifyContact) exOptOutInput) = IdentifyContact"
    by (simp add: nextState_from_identify exStateAt_simps p truthy_def i)
  show ?thesis using c i a b d by (simp add: exStateAt_simps)
qed

lemma qualify_step:
  assumes "current s = Qualify" "in_intent i \<noteq> Some opt_out"
    "in_intent i \<noteq> Some transfer" "in_intent i \<noteq> Some disqualify"
  shows "current (nextState s i) =
     (if isQualified (updateSlots (slots s) i) then ProposeTime else Qualify)"
  using assms by (simp add: nextState_def switchOnCurrent_def Let_def)

lemma isQualified_spec_eq: "isQualified x = isQualified_spec x"
  by (auto simp: isQualified_def isQualified_spec_def)

lemma updateSlots_supplied: "updateSlots emptySlots (exSlotsInput sl) = sl"
  by (simp add: updateSlots_def exSlotsInput_def noInput_def emptySlots_def toLowerCase_def Let_def)

text \<open>
  C9.  In \<open>Qualify\<close>, with no \<open>opt_out\<close>, \<open>transfer\<close> or \<open>disqualify\<close> intent, the
  machine moves to \<open>ProposeTime\<close> exactly when the qualification predicate of the
  specification holds of the slots as updated by the input, and stays in \<open>Qualify\<close>
  otherwise.  Medium need without stated pain does not qualify; with it, it does.
\<close>

theorem qualification_boundary:
  "(current s = Qualify
    \<and> in_intent i \<notin> {Some opt_out, Some transfer, Some disqualify}
    \<longrightarrow> (current (nextState s i) = ProposeTime
           \<longleftrightarrow> isQualified_spec (updateSlots (slots s) i))
        \<and> (current (nextState s i) = Qualify
           \<longleftrightarrow> \<not> isQualified_spec (updateSlots (slots s) i)))
   \<and> isQualified sl = isQualified_spec sl
   \<and> \<not> isQualified exBoundarySlots
   \<and> isQualified (exBoundarySlots\<lparr>pain_stated := Some True\<rparr>)"
proof -
  have a: "current s = Qualify
    \<and> in_intent i \<notin> {Some opt_out, Some transfer, Some disqualify}
    \<longrightarrow> (current (nextState s i) = ProposeTime
           \<longleftrightarrow> isQualified_spec (updateSlots (slots s) i))
        \<and> (current (nextState s i) = Qualify
           \<longleftrightarrow> \<not> isQualified_spec (updateSlots (slots s) i))"
    by (auto simp: qualify_step isQualified_spec_eq)
  have b: "\<not> isQualified exBoundarySlots"
    by (simp add: isQualified_def exBoundarySlots_def)
  have c: "isQualified (exBoundarySlots\<lparr>pain_stated := Some True\<rparr>)"
    by (simp add: isQualified_def exBoundarySlots_def)
  show ?thesis using a b c isQualified_spec_eq[of sl] by blast
qed

theorem qualification_boundary_witness:
  "current (exStateAt Qualify) = Qualify
   \<and> in_intent (exSlotsInput exBoundarySlots) \<notin> {Some opt_out, Some transfer, Some disqualify}
   \<and> updateSlots (slots (exStateAt Qualify)) (exSlotsInput exBoundarySlots) = exBoundarySlots
   \<and> current (nextState (exStateAt Qualify) (exSlotsInput exBoundarySlots)) = Qualify
   \<and> current (nextState (exStateAt Qualify)
         (exSlotsInput (exBoundarySlots\<lparr>pain_stated := Some True\<rparr>))) = ProposeTime"
proof -
  have n: "\<And>x. in_intent (exSlotsInput x) = None"
    by (simp add: exSlotsInput_def noInput_def)
  show ?thesis
    using qualification_boundary[of "exStateAt Qualify" "exSlotsInput exBoundarySlots" exBoundarySlots]
      qualification_boundary[of "exStateAt Qualify"
        "exSlotsInput (exBoundarySlots\<lparr>pain_stated := Some True\<rparr>)"
        "exBoundarySlots\<lparr>pain_stated := Some True\<rparr>"]
    by (simp add: exStateAt_simps n updateSlots_supplied)
qed

section \<open>Properties of the scheduler\<close>

lemma dayFloor: "t - t mod 86400000 = 86400000 * (t div 86400000)" for t :: int
  by (simp add: minus_mod_eq_mult_div)

lemma weekday_shift: "((d + 4) mod 7 + 6) mod 7 = (d + 3) mod 7" for d :: int
  by presburger

lemma week_arith:
  fixes d k r t :: int
  assumes "0 \<le> k" "k < 7" "t = 86400000 * d + r" "0 \<le> r" "r < 86400000"
  shows "86400000 * (d - k) \<le> t \<and> t < 86400000 * (d - k) + 7 * 86400000"
  using assms by (simp add: algebra_simps)

lemma isoWeekStart_bounds: "isoWeekStart t \<le> t \<and> t < isoWeekStart t + 7 * 86400000"
  unfolding isoWeekStart_def
  by (rule week_arith[where r = "t mod 86400000"]) simp_all

lemma monday_rem: "(d - (d + 3) mod 7 + 4) mod 7 = 1" for d :: int
  by presburger

lemma isoWeekStart_monday:
  "WeekDay (isoWeekStart t) = 1" "HourFromTime (isoWeekStart t) = 0"
  "isoWeekStart t mod 86400000 = 0"
proof -
  show "WeekDay (isoWeekStart t) = 1"
    unfolding isoWeekStart_def WeekDay_def by (simp add: monday_rem)
  have "86400000 * x = 3600000 * (24 * x)" for x :: int by simp
  then have "(86400000 * x) div 3600000 = 24 * x" for x :: int
    by (metis nonzero_mult_div_cancel_left zero_neq_numeral)
  then show "HourFromTime (isoWeekStart t) = 0"
    unfolding isoWeekStart_def HourFromTime_def by simp
  show "isoWeekStart t mod 86400000 = 0" unfolding isoWeekStart_def by simp
qed

lemma TimeClip_inRange: "inDateRange t \<Longrightarrow> TimeClip t = Some t"
  by (simp add: TimeClip_def inDateRange_def)

lemma monday_value:
  "t + - ((WeekDay t + 6) mod 7) * 86400000
     - (t + - ((WeekDay t + 6) mod 7) * 86400000) mod 86400000 = isoWeekStart t"
proof -
  have k: "(WeekDay t + 6) mod 7 = (t div 86400000 + 3) mod 7"
    unfolding WeekDay_def by (rule weekday_shift)
  have "(t + - ((t div 86400000 + 3) mod 7) * 86400000) div 86400000
        = t div 86400000 - (t div 86400000 + 3) mod 7"
    by simp
  then show ?thesis
    unfolding k dayFloor isoWeekStart_def by simp
qed

lemma monday_date:
  assumes "inDateRange t" "inDateRange (t - 7 * 86400000)"
  shows "setUTCHours0 0
           (addUTCDays (map_option (\<lambda>d. - ((d + 6) mod 7)) (getUTCDay (Some t))) (Some t))
         = Some (isoWeekStart t)"
proof -
  define k where "k = (WeekDay t + 6) mod 7"
  have kr: "0 \<le> k" "k < 7" unfolding k_def by simp_all
  have r1: "inDateRange (t + - k * 86400000)"
    using assms kr unfolding inDateRange_def by simp
  have r2: "inDateRange (isoWeekStart t)"
    using assms isoWeekStart_bounds[of t] unfolding inDateRange_def by simp
  have v: "t + - k * 86400000 - (t + - k * 86400000) mod 86400000 = isoWeekStart t"
    unfolding k_def by (rule monday_value)
  show ?thesis
    unfolding getUTCDay_def addUTCDays_def setUTCHours0_def
    using r1 r2 v by (simp add: k_def[symmetric] TimeClip_inRange)
qed

lemma getAttemptsInWindow_eq:
  "getAttemptsInWindow attempts (Some lo) (Some hi) =
     filter (\<lambda>a. inDateRange (timestamp a) \<and> lo \<le> timestamp a \<and> timestamp a < hi) attempts"
  unfolding getAttemptsInWindow_def Let_def
  by (rule filter_cong) (auto simp: TimeClip_def inDateRange_def leNum_def ltNum_def)

lemma getAttemptsInWindow_invalid: "getAttemptsInWindow attempts None hi = []"
  by (simp add: getAttemptsInWindow_def leNum_def)

lemma getAttemptsThisWeek_length: "length (getAttemptsThisWeek clock attempts) \<le> length attempts"
  by (simp add: getAttemptsThisWeek_def getAttemptsInWindow_def Let_def)

lemma getAttemptsThisWeek_eq:
  assumes "inDateRange (clock - 7 * 86400000)" "inDateRange (clock + 7 * 86400000)"
  shows "getAttemptsThisWeek clock attempts = attemptsInIsoWeek clock attempts"
proof -
  have c: "inDateRange clock" using assms unfolding inDateRange_def by simp
  have m: "setUTCHours0 0
           (addUTCDays (map_option (\<lambda>d. - ((d + 6) mod 7)) (getUTCDay (Some clock))) (Some clock))
         = Some (isoWeekStart clock)"
    by (rule monday_date[OF c assms(1)])
  have b: "isoWeekStart clock \<le> clock" "clock < isoWeekStart clock + 7 * 86400000"
    using isoWeekStart_bounds[of clock] by simp_all
  have n: "inDateRange (isoWeekStart clock + 7 * 86400000)"
    using assms b unfolding inDateRange_def by simp
  have "getAttemptsThisWeek clock attempts =
     getAttemptsInWindow attempts (Some (isoWeekStart clock))
       (Some (isoWeekStart clock + 7 * 86400000))"
    unfolding getAttemptsThisWeek_def Let_def TimeClip_inRange[OF c] m
    using n by (simp add: addUTCDays_def TimeClip_inRange)
  also have "\<dots> = attemptsInIsoWeek clock attempts"
    unfolding getAttemptsInWindow_eq attemptsInIsoWeek_def
    using assms b by (intro filter_cong) (auto simp: inDateRange_def)
  finally show ?thesis .
qed

lemma getTimeWindow_cases:
  assumes "getTimeWindow r = Some w"
  shows "w = \<lparr>w_start = 13, w_end = 21\<rparr> \<or> w = \<lparr>w_start = 17, w_end = 1\<rparr>
       \<or> w = \<lparr>w_start = 8, w_end = 16\<rparr> \<or> w = \<lparr>w_start = 0, w_end = 8\<rparr>"
  using assms
  by (auto simp: getTimeWindow_def REGION_TIME_WINDOWS_def split: if_splits)


lemma hour_decomposition:
  obtains d h r :: int where
    "t = 86400000 * d + 3600000 * h + r" "0 \<le> h" "h < 24" "0 \<le> r" "r < 3600000"
    "HourFromTime t = h" "t - t mod 86400000 = 86400000 * d"
proof -
  define q where "q = t div 3600000"
  define r where "r = t mod 3600000"
  define d where "d = q div 24"
  define h where "h = q mod 24"
  have 1: "t = 3600000 * q + r" unfolding q_def r_def by simp
  have 2: "q = 24 * d + h" unfolding d_def h_def by simp
  have 3: "0 \<le> h" "h < 24" "0 \<le> r" "r < 3600000" unfolding h_def r_def by simp_all
  have "t div 86400000 = t div (3600000 * 24)" by simp
  also have "\<dots> = (t div 3600000) div 24" by (rule zdiv_zmult2_eq) simp
  finally have 4: "t div 86400000 = d" unfolding d_def q_def .
  have 5: "t - t mod 86400000 = 86400000 * d" using dayFloor[of t] 4 by simp
  have 6: "t = 86400000 * d + 3600000 * h + r" using 1 2 by simp
  have 7: "HourFromTime t = h" unfolding HourFromTime_def h_def q_def ..
  show thesis using that[OF 6 3 7 5] .
qed

lemma nextMinute_bounds:
  "t < t - t mod 60000 + 60000 \<and> t - t mod 60000 + 60000 \<le> t + 60000
   \<and> (t - t mod 60000 + 60000) mod 60000 = 0" for t :: int
proof -
  have r: "0 \<le> t mod 60000" "t mod 60000 < 60000" by simp_all
  have "(t - t mod 60000 + 60000) mod 60000 = 0"
    by (simp add: minus_mod_eq_mult_div)
  then show ?thesis using r by linarith
qed


lemma atHour_today:
  assumes a: "HourFromTime t < s" and that: "s \<le> 24"
  shows "t < t - t mod 86400000 + s * 3600000
     \<and> t - t mod 86400000 + s * 3600000 \<le> t + 86400000"
proof -
  obtain d h r where x: "t = 86400000 * d + 3600000 * h + r" "0 \<le> h" "h < 24" "0 \<le> r"
    "r < 3600000" "HourFromTime t = h" "t - t mod 86400000 = 86400000 * d"
    by (rule hour_decomposition)
  show ?thesis unfolding x(7) using x(1-6) a that by linarith
qed

lemma atHour_tomorrow:
  assumes "s \<le> HourFromTime t" "0 \<le> s"
  shows "t < t - t mod 86400000 + 86400000 + s * 3600000
     \<and> t - t mod 86400000 + 86400000 + s * 3600000 \<le> t + 86400000"
proof -
  obtain d h r where x: "t = 86400000 * d + 3600000 * h + r" "0 \<le> h" "h < 24" "0 \<le> r"
    "r < 3600000" "HourFromTime t = h" "t - t mod 86400000 = 86400000 * d"
    by (rule hour_decomposition)
  show ?thesis unfolding x(7) using x(1-6) assms by linarith
qed



lemma getNextTimeInWindow_valid:
  assumes w: "getTimeWindow r = Some w"
    and t: "inDateRange t" "inDateRange (t + 86400000)"
  shows "getNextTimeInWindow (Some t) w = Some (proposedInstant t w)"
proof -
  define h where "h = HourFromTime t"
  have rng: "0 \<le> w_start w" "w_start w < 24"
    using getTimeWindow_cases[OF w] by auto
  have m: "(t + 86400000) mod 86400000 = t mod 86400000" by simp
  have A: "nextUTCMinute (Some t) = Some (t - t mod 60000 + 60000)"
  proof -
    have "inDateRange (t - t mod 60000 + 60000)"
      using nextMinute_bounds[of t] t unfolding inDateRange_def by linarith
    then show ?thesis by (simp add: nextUTCMinute_def TimeClip_inRange)
  qed
  have B: "setUTCHours0 (w_start w) (Some t) = Some (t - t mod 86400000 + w_start w * 3600000)"
    if "h < w_start w"
  proof -
    have "inDateRange (t - t mod 86400000 + w_start w * 3600000)"
      using atHour_today[of t "w_start w"] that rng t unfolding inDateRange_def h_def
      by linarith
    then show ?thesis by (simp add: setUTCHours0_def TimeClip_inRange)
  qed
  have C: "setUTCHours0 (w_start w) (addUTCDays (Some 1) (Some t))
             = Some (t - t mod 86400000 + 86400000 + w_start w * 3600000)"
    if "w_start w \<le> h"
  proof -
    have "inDateRange (t - t mod 86400000 + 86400000 + w_start w * 3600000)"
      using atHour_tomorrow[of "w_start w" t] that rng t unfolding inDateRange_def h_def
      by linarith
    then have "TimeClip (t + 86400000 - (t + 86400000) mod 86400000 + w_start w * 3600000)
                 = Some (t - t mod 86400000 + 86400000 + w_start w * 3600000)"
      unfolding m by (simp add: TimeClip_inRange algebra_simps)
    then show ?thesis
      using t(2) by (simp add: setUTCHours0_def addUTCDays_def TimeClip_inRange)
  qed
  show ?thesis
    unfolding getNextTimeInWindow_def proposedInstant_def Let_def getUTCHours_def
    using getTimeWindow_cases[OF w] A B C
    by (auto simp: hourInWindow_def leNum_def ltNum_def h_def)
qed

lemma diffMinutes_lt: "(real_of_int d / (1000 * 60) < 15) = (d < 900000)"
proof -
  have "(real_of_int d / 60000 < 15) = (real_of_int d < 15 * 60000)"
    by (simp add: field_simps)
  also have "\<dots> = (d < 900000)" by linarith
  finally show ?thesis by simp
qed

lemma diffHours_ge: "(real_of_int d / (1000 * 60 * 60) \<ge> 24) = (d \<ge> 86400000)"
proof -
  have "(real_of_int d / 3600000 \<ge> 24) = (real_of_int d \<ge> 24 * 3600000)"
    by (simp add: field_simps)
  also have "\<dots> = (d \<ge> 86400000)" by linarith
  finally show ?thesis by simp
qed

lemma getBusyRetryTime_eq:
  assumes "inDateRange (timestamp a)"
  shows "getBusyRetryTime a (Some now) =
     (if outcome a = busy \<and> now - timestamp a < 900000
      then Some (TimeClip (timestamp a + 900000)) else None)"
proof -
  have "getBusyRetryTime a (Some now) =
     (if outcome a \<noteq> busy then None
      else if real_of_int (now - timestamp a) / (1000 * 60) < 15
           then Some (TimeClip (timestamp a + 15 * 60000)) else None)"
    unfolding getBusyRetryTime_def Let_def TimeClip_inRange[OF assms] subNum_def
      addUTCMinutes_def
    by (simp only: option.case)
  then show ?thesis by (simp only: diffMinutes_lt) simp
qed

lemma has24HourSpacing_eq:
  assumes "inDateRange (timestamp a)"
  shows "has24HourSpacing a (Some now) = (now - timestamp a \<ge> 86400000)"
proof -
  have "has24HourSpacing a (Some now)
          = (real_of_int (now - timestamp a) / (1000 * 60 * 60) \<ge> 24)"
    unfolding has24HourSpacing_def Let_def TimeClip_inRange[OF assms] subNum_def
    by (simp only: option.case)
  then show ?thesis by (simp only: diffHours_ge)
qed

lemma getLastAttempt_latest:
  assumes "getLastAttempt xs = Some a"
  shows "a \<in> set xs \<and> (\<forall>b\<in>set xs. timestamp b \<le> timestamp a)"
proof -
  let ?f = "\<lambda>a. - timestamp a"
  let ?ys = "sort_key ?f xs"
  have ne: "xs \<noteq> []" and a: "a = hd ?ys"
    using assms by (auto simp: getLastAttempt_def split: if_splits)
  have ys: "?ys \<noteq> []" using ne by (metis length_0_conv length_sort)
  have s: "sorted (map ?f ?ys)" by (rule sorted_sort_key)
  have m: "a \<in> set xs" using a ys by (metis hd_in_set set_sort)
  have "\<forall>b\<in>set ?ys. ?f a \<le> ?f b"
  proof (cases ?ys)
    case Nil
    then show ?thesis using ys by simp
  next
    case (Cons y zs)
    then show ?thesis using s a by auto
  qed
  then show ?thesis using m by simp
qed

lemma getLastAttempt_unique_latest:
  assumes "a \<in> set xs" and "\<forall>b\<in>set xs. b \<noteq> a \<longrightarrow> timestamp b < timestamp a"
  shows "getLastAttempt xs = Some a"
proof -
  have "xs \<noteq> []" using assms(1) by auto
  then obtain r where r: "getLastAttempt xs = Some r" by (simp add: getLastAttempt_def)
  have l: "r \<in> set xs" "timestamp a \<le> timestamp r"
    using getLastAttempt_latest[OF r] assms(1) by auto
  have "r = a"
  proof (rule ccontr)
    assume "r \<noteq> a"
    then have "timestamp r < timestamp a" using assms(2) l(1) by blast
    then show False using l(2) by simp
  qed
  then show ?thesis using r by simp
qed


lemma exThreeAttempts_get:
  "getAttempts exThreeAttempts ''lead-1'' =
     [(exAttempt 1 1710165600000 no_answer)\<lparr>attempt_id := ''a''\<rparr>,
      (exAttempt 2 1710252000000 no_answer)\<lparr>attempt_id := ''b''\<rparr>,
      (exAttempt 3 1710338400000 no_answer)\<lparr>attempt_id := ''c''\<rparr>]"
  by (simp add: exThreeAttempts_def recordAttempt_def getAttempts_def exAttempt_def)

lemma exFriday_week: "isoWeekStart exFriday = 1710115200000"
  by (simp add: isoWeekStart_def exFriday_def)

lemma exThree_inWeek:
  "length (attemptsInIsoWeek exFriday (getAttempts exThreeAttempts ''lead-1'')) = 3"
  by (simp add: attemptsInIsoWeek_def exFriday_week exThreeAttempts_get exAttempt_def)

lemma us_east: "getTimeWindow ''US_EAST'' = Some \<lparr>w_start = 13, w_end = 21\<rparr>"
  by (simp add: getTimeWindow_def REGION_TIME_WINDOWS_def)


lemma exBusyOnce_get:
  "getAttempts exBusyOnce ''lead-1'' = [(exAttempt 1 exFriday busy)\<lparr>attempt_id := ''a''\<rparr>]"
  by (simp add: exBusyOnce_def recordAttempt_def getAttempts_def exAttempt_def)

lemma exNoAnswerOnce_get:
  "getAttempts exNoAnswerOnce ''lead-1'' = [(exAttempt 1 exFriday no_answer)\<lparr>attempt_id := ''a''\<rparr>]"
  by (simp add: exNoAnswerOnce_def recordAttempt_def getAttempts_def exAttempt_def)




lemma exBusyAtOneInstant_get:
  "getAttempts exBusyAtOneInstant ''lead-1'' =
     [(exAttempt 1 exFriday no_answer)\<lparr>attempt_id := ''a''\<rparr>,
      (exAttempt 2 exFriday busy)\<lparr>attempt_id := ''b''\<rparr>]"
  by (simp add: exBusyAtOneInstant_def recordAttempt_def getAttempts_def exAttempt_def)

lemma getLastAttempt_single: "getLastAttempt [a] = Some a"
  by (simp add: getLastAttempt_def)

lemma thisWeek_below_cap:
  "length attempts < 3 \<Longrightarrow> \<not> 3 \<le> length (getAttemptsThisWeek clock attempts)"
  using getAttemptsThisWeek_length[of clock attempts] by simp

lemma spacing_step:
  assumes "getLastAttempt (getAttempts attemptStore leadId) = Some la"
    and "\<not> 3 \<le> length (getAttemptsThisWeek clock1 (getAttempts attemptStore leadId))"
    and "inDateRange (timestamp la)"
    and "now - timestamp la < 86400000"
    and "\<not> (outcome la = busy \<and> now - timestamp la < 900000)"
  shows "scheduleAttempt clock0 clock1 attemptStore leadId (Some r) (Some (Some now)) =
     (case getTimeWindow r of
        None \<Rightarrow> Inl RangeError
      | Some w \<Rightarrow>
          (case getNextTimeInWindow (TimeClip (timestamp la + 86400000)) w of
             None \<Rightarrow> Inl RangeError
           | Some ts \<Rightarrow>
               Inr \<lparr>eligible = False, next_attempt_ts = Some ts,
                    block_reason = Some ''INSUFFICIENT_SPACING'',
                    sr_attempt_no = Some (getNextAttemptNo (getAttempts attemptStore leadId)),
                    retry_after_ts = None\<rparr>))"
proof -
  have b: "getBusyRetryTime la (Some now) = None"
    using assms(5) by (simp add: getBusyRetryTime_eq[OF assms(3)])
  have h: "\<not> has24HourSpacing la (Some now)"
    using assms(4) by (simp add: has24HourSpacing_eq[OF assms(3)])
  have nt: "addUTCHours 24 (TimeClip (timestamp la)) = TimeClip (timestamp la + 86400000)"
    unfolding addUTCHours_def TimeClip_inRange[OF assms(3)] by simp
  show ?thesis
    unfolding scheduleAttempt_def Let_def
    using assms(1,2) b h nt
    by (simp add: toISOString_def split: option.splits)
qed

lemma isoWeekStart_later:
  assumes "1710720000000 \<le> t"
  shows "1710720000000 \<le> isoWeekStart t"
proof -
  define d where "d = t div 86400000"
  have "1710720000000 div 86400000 \<le> t div 86400000"
    using assms by (rule zdiv_mono1) simp
  then have "19800 \<le> d" unfolding d_def by simp
  then have "19800 \<le> d - (d + 3) mod 7" by presburger
  then show ?thesis unfolding isoWeekStart_def d_def[symmetric] by simp
qed

lemma later_week_empty:
  assumes "1710720000000 \<le> clock" and "\<forall>a\<in>set attempts. timestamp a < 1710720000000"
  shows "getAttemptsThisWeek clock attempts = []"
proof (cases "inDateRange clock")
  case False
  then have "TimeClip clock = None" by (simp add: TimeClip_def inDateRange_def)
  then show ?thesis
    by (simp add: getAttemptsThisWeek_def Let_def getUTCDay_def addUTCDays_def setUTCHours0_def
        getAttemptsInWindow_invalid)
next
  case True
  have r: "inDateRange (clock - 7 * 86400000)"
    using True assms(1) unfolding inDateRange_def by simp
  have m: "setUTCHours0 0
           (addUTCDays (map_option (\<lambda>d. - ((d + 6) mod 7)) (getUTCDay (Some clock))) (Some clock))
         = Some (isoWeekStart clock)"
    by (rule monday_date[OF True r])
  have "\<not> leNum (Some (isoWeekStart clock)) (TimeClip (timestamp a))" if "a \<in> set attempts" for a
    using assms(2) that isoWeekStart_later[OF assms(1)]
    by (auto simp: leNum_def TimeClip_def)
  then show ?thesis
    unfolding getAttemptsThisWeek_def Let_def TimeClip_inRange[OF True] m getAttemptsInWindow_def
    by (simp add: filter_empty_conv)
qed

lemma exThree_last:
  "getLastAttempt (getAttempts exThreeAttempts ''lead-1'')
     = Some ((exAttempt 3 1710338400000 no_answer)\<lparr>attempt_id := ''c''\<rparr>)"
  by (simp add: getLastAttempt_def exThreeAttempts_get exAttempt_def)

lemma exThree_next: "getNextAttemptNo (getAttempts exThreeAttempts ''lead-1'') = 4"
  by (simp add: getNextAttemptNo_def exThree_last) (simp add: exThreeAttempts_get exAttempt_def)

lemma exThree_counted:
  "getAttemptsThisWeek exFriday (getAttempts exThreeAttempts ''lead-1'')
     = getAttempts exThreeAttempts ''lead-1''"
proof -
  have "getAttemptsThisWeek exFriday (getAttempts exThreeAttempts ''lead-1'')
          = attemptsInIsoWeek exFriday (getAttempts exThreeAttempts ''lead-1'')"
    by (rule getAttemptsThisWeek_eq) (simp_all add: inDateRange_def exFriday_def)
  then show ?thesis
    by (simp add: attemptsInIsoWeek_def exFriday_week exThreeAttempts_get exAttempt_def)
qed

lemma next_monday_date:
  assumes "inDateRange (t - 7 * 86400000)" "inDateRange (t + 7 * 86400000)"
  shows "setUTCHours0 0
           (addUTCDays (Some 7)
              (addUTCDays (map_option (\<lambda>d. - ((d + 6) mod 7)) (getUTCDay (Some t))) (Some t)))
         = Some (isoWeekStart t + 7 * 86400000)"
proof -
  define k where "k = (WeekDay t + 6) mod 7"
  define u where "u = t + - k * 86400000"
  have kr: "0 \<le> k" "k < 7" unfolding k_def by simp_all
  have r1: "inDateRange u" "inDateRange (u + 7 * 86400000)"
    using assms kr unfolding inDateRange_def u_def by simp_all
  have v: "u - u mod 86400000 = isoWeekStart t"
    unfolding u_def k_def by (rule monday_value)
  have "(u + 7 * 86400000) mod 86400000 = u mod 86400000" by (rule mod_mult_self1)
  then have v': "u + 7 * 86400000 - (u + 7 * 86400000) mod 86400000
                   = isoWeekStart t + 7 * 86400000"
    using v by simp
  have r2: "inDateRange (isoWeekStart t + 7 * 86400000)"
    using assms isoWeekStart_bounds[of t] unfolding inDateRange_def by simp
  have a: "addUTCDays (map_option (\<lambda>d. - ((d + 6) mod 7)) (getUTCDay (Some t))) (Some t) = Some u"
  proof -
    have "TimeClip (t + - k * 86400000) = Some u"
      using r1(1) unfolding u_def by (rule TimeClip_inRange)
    then show ?thesis
      unfolding getUTCDay_def addUTCDays_def by (simp add: k_def[symmetric])
  qed
  have b: "addUTCDays (Some 7) (Some u) = Some (u + 7 * 86400000)"
    unfolding addUTCDays_def using r1(2) by (simp add: TimeClip_inRange)
  have c: "TimeClip (u + 7 * 86400000 - (u + 7 * 86400000) mod 86400000)
             = Some (isoWeekStart t + 7 * 86400000)"
    unfolding v' using r2 by (rule TimeClip_inRange)
  show ?thesis
    unfolding a b setUTCHours0_def using c by simp
qed

lemma nextMonday_props:
  "HourFromTime (isoWeekStart t + 7 * 86400000) = 0"
  "(isoWeekStart t + 7 * 86400000) mod 86400000 = 0"
  "(isoWeekStart t + 7 * 86400000) mod 60000 = 0"
  "WeekDay (isoWeekStart t + 7 * 86400000) = 1"
proof -
  have e: "isoWeekStart t + 7 * 86400000
             = 86400000 * (t div 86400000 - (t div 86400000 + 3) mod 7 + 7)"
    unfolding isoWeekStart_def by simp
  show m: "(isoWeekStart t + 7 * 86400000) mod 86400000 = 0" unfolding e by simp
  have "(60000::int) dvd 86400000" by simp
  then have "(isoWeekStart t + 7 * 86400000) mod 86400000 mod 60000
               = (isoWeekStart t + 7 * 86400000) mod 60000"
    by (rule mod_mod_cancel)
  then show "(isoWeekStart t + 7 * 86400000) mod 60000 = 0" using m by simp
  have "86400000 * x = 3600000 * (24 * x)" for x :: int by simp
  then have "(86400000 * x) div 3600000 = 24 * x" for x :: int
    by (metis nonzero_mult_div_cancel_left zero_neq_numeral)
  then show "HourFromTime (isoWeekStart t + 7 * 86400000) = 0"
    unfolding e HourFromTime_def by simp
  have "(d - (d + 3) mod 7 + 7 + 4) mod 7 = 1" for d :: int by presburger
  then show "WeekDay (isoWeekStart t + 7 * 86400000) = 1"
    unfolding e WeekDay_def by simp
qed

text \<open>
  What holds of the weekly cap: when the system clock lies in the ISO week of the
  evaluation time (both at least eight days inside the range of \<open>Date\<close>), the region
  resolves to a window, and the lead has three or more attempts in that week, the answer
  is \<open>WEEKLY_LIMIT_EXCEEDED\<close>.  The instant proposed is the one for 00:00 UTC of the
  following Monday: the start of the window on that Monday, or 00:01 of that Monday when
  hour 0 already lies in the window, as it does for \<open>APAC\<close> and \<open>US_WEST\<close>.
\<close>

lemma weekly_cap_in_week_of_clock:
  assumes "getTimeWindow (regionOrDefault regionArg) = Some w"
    and "evaluationTime clock0 currentTime = Some now"
    and "isoWeekStart clock1 = isoWeekStart now"
    and "3 \<le> length (attemptsInIsoWeek now (getAttempts attemptStore leadId))"
    and "inDateRange (clock1 - 7 * 86400000)" and "inDateRange (clock1 + 7 * 86400000)"
    and "inDateRange (now - 7 * 86400000)" and "inDateRange (now + 8 * 86400000)"
  shows "scheduleAttempt clock0 clock1 attemptStore leadId regionArg currentTime =
     Inr \<lparr>eligible = False,
          next_attempt_ts =
            Some (if hourInWindow 0 w then isoWeekStart now + 7 * 86400000 + 60000
                  else isoWeekStart now + 7 * 86400000 + w_start w * 3600000),
          block_reason = Some ''WEEKLY_LIMIT_EXCEEDED'',
          sr_attempt_no = None, retry_after_ts = None\<rparr>
     \<and> WeekDay (isoWeekStart now + 7 * 86400000) = 1"
proof -
  define nm where "nm = isoWeekStart now + 7 * 86400000"
  have n: "(case currentTime of Some d \<Rightarrow> d | None \<Rightarrow> TimeClip clock0) = Some now"
    using assms(2) by (simp add: evaluationTime_def)
  have r: "(case regionArg of None \<Rightarrow> ''DEFAULT'' | Some x \<Rightarrow> x) = regionOrDefault regionArg"
    by (simp add: regionOrDefault_def)
  have "getAttemptsThisWeek clock1 (getAttempts attemptStore leadId)
          = attemptsInIsoWeek clock1 (getAttempts attemptStore leadId)"
    by (rule getAttemptsThisWeek_eq[OF assms(5,6)])
  also have "\<dots> = attemptsInIsoWeek now (getAttempts attemptStore leadId)"
    by (simp add: attemptsInIsoWeek_def assms(3))
  finally have c: "3 \<le> length (getAttemptsThisWeek clock1 (getAttempts attemptStore leadId))"
    using assms(4) by simp
  have r7: "inDateRange (now + 7 * 86400000)"
    using assms(7,8) unfolding inDateRange_def by simp
  have m: "setUTCHours0 0
           (addUTCDays (Some 7)
              (addUTCDays (map_option (\<lambda>d. - ((d + 6) mod 7)) (getUTCDay (Some now))) (Some now)))
         = Some nm"
    unfolding nm_def by (rule next_monday_date[OF assms(7) r7])
  have b: "isoWeekStart now \<le> now" "now < isoWeekStart now + 7 * 86400000"
    using isoWeekStart_bounds[of now] by simp_all
  have rn: "inDateRange nm" "inDateRange (nm + 86400000)"
    using assms(7,8) b unfolding inDateRange_def nm_def by simp_all
  have g: "getNextTimeInWindow (Some nm) w = Some (proposedInstant nm w)"
    by (rule getNextTimeInWindow_valid[OF assms(1) rn])
  have p: "proposedInstant nm w =
     (if hourInWindow 0 w then nm + 60000 else nm + w_start w * 3600000)"
    using getTimeWindow_cases[OF assms(1)] nextMonday_props(1,2,3)[of now]
    unfolding nm_def[symmetric]
    by (auto simp: proposedInstant_def hourInWindow_def)
  have res: "scheduleAttempt clock0 clock1 attemptStore leadId regionArg currentTime =
     Inr \<lparr>eligible = False,
          next_attempt_ts =
            Some (if hourInWindow 0 w then nm + 60000 else nm + w_start w * 3600000),
          block_reason = Some ''WEEKLY_LIMIT_EXCEEDED'',
          sr_attempt_no = None, retry_after_ts = None\<rparr>"
    unfolding scheduleAttempt_def Let_def n r m
    using c g assms(1) by (simp add: toISOString_def p)
  show ?thesis
    using res nextMonday_props(4)[of now] by (simp add: nm_def)
qed

lemma weekly_cap_proposes_next_minute:
  "scheduleAttempt exFriday exFriday exThreeAttempts ''lead-1'' (Some ''APAC'')
       (Some (Some exFriday))
     = Inr \<lparr>eligible = False, next_attempt_ts = Some 1710720060000,
            block_reason = Some ''WEEKLY_LIMIT_EXCEEDED'', sr_attempt_no = None,
            retry_after_ts = None\<rparr>
   \<and> scheduleAttempt exFriday exFriday exThreeAttempts ''lead-1'' (Some ''US_WEST'')
       (Some (Some exFriday))
     = Inr \<lparr>eligible = False, next_attempt_ts = Some 1710720060000,
            block_reason = Some ''WEEKLY_LIMIT_EXCEEDED'', sr_attempt_no = None,
            retry_after_ts = None\<rparr>"
proof -
  have a: "getTimeWindow (regionOrDefault (Some ''APAC'')) = Some \<lparr>w_start = 0, w_end = 8\<rparr>"
    "getTimeWindow (regionOrDefault (Some ''US_WEST'')) = Some \<lparr>w_start = 17, w_end = 1\<rparr>"
    by (simp_all add: regionOrDefault_def getTimeWindow_def REGION_TIME_WINDOWS_def)
  have e: "evaluationTime exFriday (Some (Some exFriday)) = Some exFriday"
    by (simp add: evaluationTime_def)
  have c: "3 \<le> length (attemptsInIsoWeek exFriday (getAttempts exThreeAttempts ''lead-1''))"
    using exThree_inWeek by simp
  have v: "inDateRange (exFriday - 7 * 86400000)" "inDateRange (exFriday + 7 * 86400000)"
    "inDateRange (exFriday + 8 * 86400000)"
    by (simp_all add: inDateRange_def exFriday_def)
  show ?thesis
    using weekly_cap_in_week_of_clock[OF a(1) e refl c v(1,2,1,3)]
      weekly_cap_in_week_of_clock[OF a(2) e refl c v(1,2,1,3)]
    by (simp add: hourInWindow_def exFriday_week)
qed

text \<open>
  C5 fails on the code.  The week whose attempts are counted is the week of the system
  clock, which \<open>getAttemptsThisWeek\<close> reads itself, not the week of the evaluation
  time passed as \<open>currentTime\<close>.  The history is the one of the repository's test of
  the weekly limit: three unanswered attempts on Monday, Tuesday and Wednesday of the
  week of 2024-03-11, evaluated on the Friday of that week for \<open>US_EAST\<close>.  Whenever the
  clock reads a time from the following Monday on, none of the three attempts is
  counted, and the answer is \<open>eligible: true\<close> with attempt number 4.  Only with the
  clock in the week of the evaluation time is the answer \<open>WEEKLY_LIMIT_EXCEEDED\<close>,
  with 13:00 of the following Monday proposed.
\<close>

theorem weekly_cap_counts_week_of_system_clock:
  assumes "1710720000000 \<le> clock1"
  shows "length (attemptsInIsoWeek exFriday (getAttempts exThreeAttempts ''lead-1'')) = 3
     \<and> scheduleAttempt clock0 clock1 exThreeAttempts ''lead-1'' (Some ''US_EAST'')
           (Some (Some exFriday))
         = Inr \<lparr>eligible = True, next_attempt_ts = Some exFriday, block_reason = None,
                sr_attempt_no = Some 4, retry_after_ts = None\<rparr>
     \<and> scheduleAttempt clock0 exFriday exThreeAttempts ''lead-1'' (Some ''US_EAST'')
           (Some (Some exFriday))
         = Inr \<lparr>eligible = False, next_attempt_ts = Some 1710766800000,
                block_reason = Some ''WEEKLY_LIMIT_EXCEEDED'', sr_attempt_no = None,
                retry_after_ts = None\<rparr>"
proof -
  have w: "getAttemptsThisWeek clock1 (getAttempts exThreeAttempts ''lead-1'') = []"
    by (rule later_week_empty[OF assms]) (simp add: exThreeAttempts_get exAttempt_def)
  have v: "inDateRange 1710338400000" by (simp add: inDateRange_def)
  have s: "scheduleAttempt clock0 clock1 exThreeAttempts ''lead-1'' (Some ''US_EAST'')
           (Some (Some exFriday))
         = Inr \<lparr>eligible = True, next_attempt_ts = Some exFriday, block_reason = None,
                sr_attempt_no = Some 4, retry_after_ts = None\<rparr>"
    unfolding scheduleAttempt_def Let_def w exThree_last exThree_next
    by (simp add: getBusyRetryTime_def has24HourSpacing_eq v us_east exAttempt_def
        exFriday_def canCallNow_def getUTCHours_def HourFromTime_def leNum_def ltNum_def
        toISOString_def)
  have m: "setUTCHours0 0
             (addUTCDays (Some 7)
                (addUTCDays (map_option (\<lambda>d. - ((d + 6) mod 7)) (getUTCDay (Some exFriday)))
                   (Some exFriday))) = Some 1710720000000"
    by (simp add: setUTCHours0_def addUTCDays_def getUTCDay_def WeekDay_def TimeClip_def
        exFriday_def)
  have g: "getNextTimeInWindow (Some 1710720000000) \<lparr>w_start = 13, w_end = 21\<rparr>
             = Some 1710766800000"
    by (simp add: getNextTimeInWindow_def getUTCHours_def HourFromTime_def setUTCHours0_def
        TimeClip_def leNum_def ltNum_def Let_def)
  have c: "3 \<le> length (getAttemptsThisWeek exFriday (getAttempts exThreeAttempts ''lead-1''))"
    unfolding exThree_counted by (simp add: exThreeAttempts_get)
  have s': "scheduleAttempt clock0 exFriday exThreeAttempts ''lead-1'' (Some ''US_EAST'')
           (Some (Some exFriday))
         = Inr \<lparr>eligible = False, next_attempt_ts = Some 1710766800000,
                block_reason = Some ''WEEKLY_LIMIT_EXCEEDED'', sr_attempt_no = None,
                retry_after_ts = None\<rparr>"
    unfolding scheduleAttempt_def Let_def
    using c by (simp add: m g us_east toISOString_def)
  show ?thesis using s s' exThree_inWeek by simp
qed

theorem weekly_cap_counts_week_of_system_clock_witness:
  "(1710720000000::int) \<le> 1793610000000
   \<and> length (attemptsInIsoWeek exFriday (getAttempts exThreeAttempts ''lead-1'')) = 3
   \<and> scheduleAttempt 1793610000000 1793610000000 exThreeAttempts ''lead-1'' (Some ''US_EAST'')
         (Some (Some exFriday))
       = Inr \<lparr>eligible = True, next_attempt_ts = Some exFriday, block_reason = None,
              sr_attempt_no = Some 4, retry_after_ts = None\<rparr>"
  using weekly_cap_counts_week_of_system_clock[of 1793610000000 1793610000000] by simp

lemma exBusyAtOneInstant_last:
  "getLastAttempt (getAttempts exBusyAtOneInstant ''lead-1'')
     = Some ((exAttempt 1 exFriday no_answer)\<lparr>attempt_id := ''a''\<rparr>)"
  by (simp add: getLastAttempt_def exBusyAtOneInstant_get exAttempt_def)

text \<open>
  C6 fails on the code.  When another attempt carries the same timestamp as the busy
  attempt and was recorded before it, \<open>getLastAttempt\<close> takes that earlier attempt for
  the last one: the first element of a stable descending sort.  With attempt 1
  unanswered and attempt 2 busy, both at Friday 14:00, the call five minutes later does
  not answer with the busy retry but with \<open>INSUFFICIENT_SPACING\<close> and no
  \<open>retry_after_ts\<close>.  With the busy attempt alone in the history the same call answers
  the retry, for 14:15 and with the busy attempt's number.
\<close>

theorem busy_retry_lost_at_equal_timestamps:
  "map attempt_no (getAttempts exBusyAtOneInstant ''lead-1'') = [1, 2]
   \<and> map outcome (getAttempts exBusyAtOneInstant ''lead-1'') = [no_answer, busy]
   \<and> map timestamp (getAttempts exBusyAtOneInstant ''lead-1'') = [exFriday, exFriday]
   \<and> getLastAttempt (getAttempts exBusyAtOneInstant ''lead-1'')
       = Some ((exAttempt 1 exFriday no_answer)\<lparr>attempt_id := ''a''\<rparr>)
   \<and> scheduleAttempt clock0 clock1 exBusyAtOneInstant ''lead-1'' (Some ''US_EAST'')
         (Some (Some (exFriday + 5 * 60000)))
       = Inr \<lparr>eligible = False, next_attempt_ts = Some 1710597660000,
              block_reason = Some ''INSUFFICIENT_SPACING'', sr_attempt_no = Some 2,
              retry_after_ts = None\<rparr>
   \<and> scheduleAttempt clock0 clock1 exBusyOnce ''lead-1'' (Some ''US_EAST'')
         (Some (Some (exFriday + 5 * 60000)))
       = Inr \<lparr>eligible = True, next_attempt_ts = Some (exFriday + 15 * 60000),
              block_reason = None, sr_attempt_no = Some 1,
              retry_after_ts = Some (exFriday + 15 * 60000)\<rparr>"
proof -
  define a where "a = (exAttempt 1 exFriday no_answer)\<lparr>attempt_id := ''a''\<rparr>"
  have fa: "outcome a = no_answer" "timestamp a = 1710511200000"
    by (simp_all add: a_def exAttempt_def exFriday_def)
  have la: "getLastAttempt (getAttempts exBusyAtOneInstant ''lead-1'') = Some a"
    by (simp add: exBusyAtOneInstant_last a_def)
  have wa: "\<not> 3 \<le> length (getAttemptsThisWeek clock1 (getAttempts exBusyAtOneInstant ''lead-1''))"
    by (rule thisWeek_below_cap) (simp add: exBusyAtOneInstant_get)
  have m: "getNextTimeInWindow (TimeClip 1710597600000) \<lparr>w_start = 13, w_end = 21\<rparr>
             = Some 1710597660000"
    by (simp add: getNextTimeInWindow_def getUTCHours_def HourFromTime_def nextUTCMinute_def
        TimeClip_def leNum_def ltNum_def Let_def)
  have n: "getNextAttemptNo (getAttempts exBusyAtOneInstant ''lead-1'') = 2"
    by (simp add: getNextAttemptNo_def exBusyAtOneInstant_last)
      (simp add: exBusyAtOneInstant_get exAttempt_def)
  have s1: "scheduleAttempt clock0 clock1 exBusyAtOneInstant ''lead-1'' (Some ''US_EAST'')
         (Some (Some (exFriday + 5 * 60000)))
       = Inr \<lparr>eligible = False, next_attempt_ts = Some 1710597660000,
              block_reason = Some ''INSUFFICIENT_SPACING'', sr_attempt_no = Some 2,
              retry_after_ts = None\<rparr>"
    by (subst spacing_step[OF la wa])
      (simp_all add: fa inDateRange_def exFriday_def us_east m n)
  have wb: "\<not> 3 \<le> length (getAttemptsThisWeek clock1 (getAttempts exBusyOnce ''lead-1''))"
    by (rule thisWeek_below_cap) (simp add: exBusyOnce_get)
  have v: "inDateRange 1710511200000" by (simp add: inDateRange_def)
  have s2: "scheduleAttempt clock0 clock1 exBusyOnce ''lead-1'' (Some ''US_EAST'')
         (Some (Some (exFriday + 5 * 60000)))
       = Inr \<lparr>eligible = True, next_attempt_ts = Some (exFriday + 15 * 60000),
              block_reason = None, sr_attempt_no = Some 1,
              retry_after_ts = Some (exFriday + 15 * 60000)\<rparr>"
    unfolding scheduleAttempt_def Let_def
    using wb
    by (simp add: exBusyOnce_get getLastAttempt_single getBusyRetryTime_eq v exAttempt_def
        exFriday_def TimeClip_def ltNum_def toISOString_def)
  show ?thesis
    using s1 s2 by (simp add: exBusyAtOneInstant_last) (simp add: exBusyAtOneInstant_get exAttempt_def)
qed

text \<open>
  What holds of the busy retry: when the busy attempt is later than every other attempt
  of the history, fewer than 15 minutes have passed since, the weekly cap does not
  apply, and the instant 15 minutes after the attempt is within the range of \<open>Date\<close>,
  the answer is \<open>eligible: true\<close> with the number of the busy attempt and
  \<open>retry_after_ts\<close> exactly 15 minutes after it, for every region.
\<close>

lemma busy_retry_of_latest_attempt:
  assumes "a \<in> set (getAttempts attemptStore leadId)"
    and "\<forall>b\<in>set (getAttempts attemptStore leadId). b \<noteq> a \<longrightarrow> timestamp b < timestamp a"
    and "outcome a = busy"
    and "evaluationTime clock0 currentTime = Some now"
    and "now - timestamp a < 15 * 60000"
    and "length (getAttemptsThisWeek clock1 (getAttempts attemptStore leadId)) < 3"
    and "inDateRange (timestamp a)" and "inDateRange (timestamp a + 15 * 60000)"
  shows "scheduleAttempt clock0 clock1 attemptStore leadId regionArg currentTime =
     Inr \<lparr>eligible = True, next_attempt_ts = Some (timestamp a + 15 * 60000),
          block_reason = None, sr_attempt_no = Some (attempt_no a),
          retry_after_ts = Some (timestamp a + 15 * 60000)\<rparr>"
proof -
  have l: "getLastAttempt (getAttempts attemptStore leadId) = Some a"
    by (rule getLastAttempt_unique_latest[OF assms(1,2)])
  have n: "(case currentTime of Some d \<Rightarrow> d | None \<Rightarrow> TimeClip clock0) = Some now"
    using assms(4) by (simp add: evaluationTime_def)
  have c: "TimeClip (timestamp a + 900000) = Some (timestamp a + 900000)"
    using assms(8) by (simp add: TimeClip_inRange)
  have b: "getBusyRetryTime a (Some now) = Some (Some (timestamp a + 900000))"
    using assms(3,5) by (simp add: getBusyRetryTime_eq[OF assms(7)] c)
  have g: "ltNum (Some now) (Some (timestamp a + 900000))"
    using assms(5) by (simp add: ltNum_def)
  show ?thesis
    unfolding scheduleAttempt_def Let_def n
    using assms(6) l b g by (simp add: toISOString_def)
qed




lemma exTwoAtOneInstant_get:
  "getAttempts exTwoAtOneInstant ''lead-1'' =
     [(exAttempt 1 exFriday no_answer)\<lparr>attempt_id := ''a''\<rparr>,
      (exAttempt 2 exFriday voicemail_outcome)\<lparr>attempt_id := ''b''\<rparr>]"
  by (simp add: exTwoAtOneInstant_def recordAttempt_def getAttempts_def exAttempt_def)

lemma insort_key_last:
  "\<forall>y\<in>set ys. f y < f x \<Longrightarrow> insort_key f x ys = ys @ [x]" for f :: "'a \<Rightarrow> int"
  by (induction ys) auto

lemma sort_key_decreasing:
  "sorted_wrt (\<lambda>a b. f a > f b) xs \<Longrightarrow> sort_key f xs = rev xs" for f :: "'a \<Rightarrow> int"
proof (induction xs)
  case Nil
  then show ?case by simp
next
  case (Cons x xs)
  then have "sort_key f xs = rev xs" by simp
  moreover have "\<forall>y\<in>set (rev xs). f y < f x" using Cons.prems by auto
  ultimately show ?case by (simp add: insort_key_last)
qed

lemma getLastAttempt_in_order:
  assumes "sorted_wrt (\<lambda>a b. timestamp a < timestamp b) xs" "xs \<noteq> []"
  shows "getLastAttempt xs = Some (last xs)"
proof -
  have "sorted_wrt (\<lambda>a b. - timestamp a > - timestamp b) xs"
    using assms(1) by (simp add: sorted_wrt_iff_nth_less)
  then have "sort_key (\<lambda>a. - timestamp a) xs = rev xs" by (rule sort_key_decreasing)
  then show ?thesis using assms(2) by (simp add: getLastAttempt_def hd_rev)
qed

lemma last_numbering: "xs \<noteq> [] \<Longrightarrow> last (map int [1..<Suc (length xs)]) = int (length xs)"
  by (cases xs rule: rev_cases) simp_all

lemma voicemail_gate_in_order:
  assumes "sorted_wrt (\<lambda>a b. timestamp a < timestamp b) (getAttempts attemptStore leadId)"
    and "map attempt_no (getAttempts attemptStore leadId)
           = map int [1..<Suc (length (getAttempts attemptStore leadId))]"
  shows "isVoicemailAllowedForLead attemptStore leadId
           = (length (getAttempts attemptStore leadId) = 1)"
proof (cases "getAttempts attemptStore leadId = []")
  case True
  then show ?thesis
    by (simp add: isVoicemailAllowedForLead_def isVoicemailAllowed_def getNextAttemptNo_def)
next
  case False
  let ?xs = "getAttempts attemptStore leadId"
  have l: "getLastAttempt ?xs = Some (last ?xs)"
    by (rule getLastAttempt_in_order[OF assms(1) False])
  have "attempt_no (last ?xs) = last (map attempt_no ?xs)" using False by (simp add: last_map)
  also have "\<dots> = last (map int [1..<Suc (length ?xs)])" using assms(2) by simp
  also have "\<dots> = int (length ?xs)" by (rule last_numbering[OF False])
  finally have n: "attempt_no (last ?xs) = int (length ?xs)" .
  have p: "length ?xs \<noteq> 0" using False by simp
  show ?thesis
    using False l n p
    by (auto simp: isVoicemailAllowedForLead_def isVoicemailAllowed_def getNextAttemptNo_def Let_def)
qed

text \<open>
  C10 fails on the code.  The voicemail check is true exactly when the next attempt
  number is 2; it is false with no attempt and true after one attempt numbered 1.  But
  with attempts 1 and 2 recorded with the same millisecond timestamp, the stable
  descending sort of \<open>getLastAttempt\<close> keeps attempt 1 first, the next attempt number
  is 2 again, and the check is true after two recorded attempts.  (When the timestamps
  increase strictly, \<open>voicemail_gate_in_order\<close> shows the check is as claimed.)
\<close>

theorem voicemail_allowed_after_two_attempts:
  "isVoicemailAllowedForLead attemptStore leadId
     = (getNextAttemptNo (getAttempts attemptStore leadId) = 2)
   \<and> isVoicemailAllowedForLead Map.empty leadId = False
   \<and> isVoicemailAllowedForLead exNoAnswerOnce ''lead-1'' = True
   \<and> map attempt_no (getAttempts exTwoAtOneInstant ''lead-1'') = [1, 2]
   \<and> getNextAttemptNo (getAttempts exTwoAtOneInstant ''lead-1'') = 2
   \<and> isVoicemailAllowedForLead exTwoAtOneInstant ''lead-1'' = True"
proof -
  have a: "isVoicemailAllowedForLead attemptStore leadId
     = (getNextAttemptNo (getAttempts attemptStore leadId) = 2)"
    by (simp add: isVoicemailAllowedForLead_def isVoicemailAllowed_def)
  have b: "isVoicemailAllowedForLead Map.empty leadId = False"
    by (simp add: isVoicemailAllowedForLead_def isVoicemailAllowed_def getNextAttemptNo_def
        getAttempts_def)
  have c: "isVoicemailAllowedForLead exNoAnswerOnce ''lead-1'' = True"
    by (simp add: isVoicemailAllowedForLead_def isVoicemailAllowed_def getNextAttemptNo_def
        exNoAnswerOnce_get getLastAttempt_single exAttempt_def)
  have d: "map attempt_no (getAttempts exTwoAtOneInstant ''lead-1'') = [1, 2]
   \<and> getNextAttemptNo (getAttempts exTwoAtOneInstant ''lead-1'') = 2
   \<and> isVoicemailAllowedForLead exTwoAtOneInstant ''lead-1'' = True"
    by (simp add: isVoicemailAllowedForLead_def isVoicemailAllowed_def getNextAttemptNo_def
        getLastAttempt_def exTwoAtOneInstant_get exAttempt_def Let_def)
  show ?thesis using a b c d by simp
qed

section \<open>Properties of the calendar engine\<close>

lemma cleanup_empty: "cleanupExpiredHolds now emptyStore = emptyStore"
  by (simp add: cleanupExpiredHolds_def emptyStore_def)

lemma empty_lookups: "holdsOf emptyStore m = []" "eventsOf emptyStore m = []"
  by (simp_all add: holdsOf_def eventsOf_def emptyStore_def)

lemma hasOverlap_empty: "hasOverlap env now emptyStore m s e x = (False, emptyStore)"
  by (simp add: hasOverlap_def Let_def cleanup_empty empty_lookups)


lemma exEnv_simps:
  "getTime exEnv = exGetTime" "CalendarHoldSchema exEnv h = True"
  by (simp_all add: exEnv_def)

lemma exOneHold_eq:
  "exOneHold =
     (let entry = \<lparr>hold = \<lparr>tentative_id = exHoldId1, hold_manager_id = exManager,
                     hold_start_utc = ''2024-03-15T14:00:00.000Z'',
                     hold_end_utc = ''2024-03-15T14:30:00.000Z'',
                     created_by = ''system'', ttl_seconds = 1800\<rparr>,
                   expires_at = 1710505800000\<rparr>
      in \<lparr>eventStore = Map.empty, holdStore = [(exHoldId1, entry)],
          managerEvents = Map.empty, managerHolds = [exManager \<mapsto> [entry]]\<rparr>)"
  by (simp add: exOneHold_def placeHold_def exHoldParams_def cleanup_empty hasOverlap_empty
      exEnv_simps empty_lookups exClock_def Let_def) (simp add: emptyStore_def)

lemma exOneHold_cleanup: "cleanupExpiredHolds (exClock k) exOneHold = exOneHold"
  by (simp add: cleanupExpiredHolds_def exOneHold_eq expireHold_def exClock_def Let_def)










lemma expireHold_events: "managerEvents (expireHold now st e) = managerEvents st"
  by (cases e) (simp add: expireHold_def Let_def)

lemma foldl_expireHold_events: "managerEvents (foldl (expireHold now) st es) = managerEvents st"
  by (induction es arbitrary: st) (simp_all add: expireHold_events)

lemma cleanup_events: "eventsOf (cleanupExpiredHolds now st) m = eventsOf st m"
  by (simp add: cleanupExpiredHolds_def eventsOf_def foldl_expireHold_events)

lemma list_ex_map_pair: "list_ex P (map f xs) = list_ex (\<lambda>x. P (f x)) xs"
  by (induction xs) simp_all

lemma hasOverlap_fst:
  "fst (hasOverlap env now st m cs ce None) =
     (list_ex (conflictsWith (getTime env cs) (getTime env ce))
        (map (\<lambda>ev. (getTime env (start_utc ev), getTime env (end_utc ev))) (eventsOf st m)
         @ map (\<lambda>h. (getTime env (hold_start_utc (hold h)), getTime env (hold_end_utc (hold h))))
             (holdsOf (cleanupExpiredHolds now st) m)))"
  by (simp add: hasOverlap_def Let_def truthyStr_def conflictsWith_def list_ex_map_pair)

lemma placeHold_fst:
  assumes "300 \<le> ttl" "ttl \<le> 1800"
  shows "fst (placeHold env clock tid st
            \<lparr>p_manager_id = m, p_start_utc = cs, p_end_utc = ce, p_ttl_seconds = ttl\<rparr>) =
     (if list_ex (conflictsWith (getTime env cs) (getTime env ce)) (liveReservations env clock st m)
      then Inl OverlapError
      else if \<not> CalendarHoldSchema env
                 \<lparr>tentative_id = tid, hold_manager_id = m, hold_start_utc = cs,
                  hold_end_utc = ce, created_by = ''system'', ttl_seconds = ttl\<rparr>
      then Inl ValidationFailed
      else Inr tid)"
proof -
  have o: "fst (hasOverlap env (clock 1) (cleanupExpiredHolds (clock 0) st) m cs ce None) =
     list_ex (conflictsWith (getTime env cs) (getTime env ce)) (liveReservations env clock st m)"
    by (simp only: hasOverlap_fst liveReservations_def cleanup_events)
  obtain ov st2 where h:
    "hasOverlap env (clock 1) (cleanupExpiredHolds (clock 0) st) m cs ce None = (ov, st2)"
    by (cases "hasOverlap env (clock 1) (cleanupExpiredHolds (clock 0) st) m cs ce None")
  have ov: "ov = list_ex (conflictsWith (getTime env cs) (getTime env ce))
                   (liveReservations env clock st m)"
    using o h by simp
  show ?thesis
    using assms h by (simp add: placeHold_def Let_def ov)
qed

text \<open>
  C8.  Let a manager have exactly one reservation visible to \<open>placeHold\<close>, from \<open>s\<close> to
  \<open>e\<close> with \<open>s \<le> e\<close>, and let the time-to-live be valid.  A candidate from \<open>a\<close> to
  \<open>b\<close> is rejected as overlapping exactly when \<open>a - buffer < e\<close> and \<open>b + buffer > s\<close>
  (the second disjunct of the source is the same test).  So the candidates nine minutes
  earlier and nine minutes later than the reservation are rejected, and a candidate that
  starts eleven minutes or more after \<open>e\<close>, or ends eleven minutes or more before
  \<open>s\<close>, is accepted when the hold passes its schema.
\<close>

theorem buffer_symmetry:
  assumes "liveReservations env clock st m = [(Some s, Some e)]" and "s \<le> e"
    and "300 \<le> ttl" and "ttl \<le> 1800"
    and "getTime env cs = Some a" and "getTime env ce = Some b"
    and "params = \<lparr>p_manager_id = m, p_start_utc = cs, p_end_utc = ce, p_ttl_seconds = ttl\<rparr>"
  shows "(fst (placeHold env clock tid st params) = Inl OverlapError
          \<longleftrightarrow> (a - BUFFER_MS < e \<and> b + BUFFER_MS > s) \<or> (s < b + BUFFER_MS \<and> e > a - BUFFER_MS))
     \<and> (a = s - 9 * 60000 \<and> b = e - 9 * 60000
         \<longrightarrow> fst (placeHold env clock tid st params) = Inl OverlapError)
     \<and> (a = s + 9 * 60000 \<and> b = e + 9 * 60000
         \<longrightarrow> fst (placeHold env clock tid st params) = Inl OverlapError)
     \<and> (a \<ge> e + 11 * 60000
          \<and> CalendarHoldSchema env
                \<lparr>tentative_id = tid, hold_manager_id = m, hold_start_utc = cs,
                 hold_end_utc = ce, created_by = ''system'', ttl_seconds = ttl\<rparr>
         \<longrightarrow> fst (placeHold env clock tid st params) = Inr tid)
     \<and> (b + 11 * 60000 \<le> s
          \<and> CalendarHoldSchema env
                \<lparr>tentative_id = tid, hold_manager_id = m, hold_start_utc = cs,
                 hold_end_utc = ce, created_by = ''system'', ttl_seconds = ttl\<rparr>
         \<longrightarrow> fst (placeHold env clock tid st params) = Inr tid)"
proof -
  have c: "list_ex (conflictsWith (getTime env cs) (getTime env ce)) (liveReservations env clock st m)
       = (a - BUFFER_MS < e \<and> s < b + BUFFER_MS)"
    by (auto simp: assms(1,5,6) conflictsWith_def overlapsWithBuffer_def ltNum_def addNum_def)
  have r: "fst (placeHold env clock tid st params) =
     (if a - BUFFER_MS < e \<and> s < b + BUFFER_MS then Inl OverlapError
      else if \<not> CalendarHoldSchema env
                 \<lparr>tentative_id = tid, hold_manager_id = m, hold_start_utc = cs,
                  hold_end_utc = ce, created_by = ''system'', ttl_seconds = ttl\<rparr>
      then Inl ValidationFailed
      else Inr tid)"
    unfolding assms(7) placeHold_fst[OF assms(3,4)] c ..
  show ?thesis
    unfolding r using assms(2) by (auto simp: BUFFER_MS_def)
qed

lemma exOneHold_live:
  "liveReservations exEnv exClock exOneHold exManager = [(Some 1710511200000, Some 1710513000000)]"
  unfolding liveReservations_def exOneHold_cleanup
  by (simp add: exOneHold_eq eventsOf_def holdsOf_def exEnv_simps exGetTime_def Let_def)

theorem buffer_symmetry_witness:
  "liveReservations exEnv exClock exOneHold exManager
       = [(Some 1710511200000, Some 1710513000000)]
   \<and> fst (placeHold exEnv exClock exHoldId2 exOneHold
            (exHoldParams ''2024-03-15T13:51:00.000Z'' ''2024-03-15T14:21:00.000Z''))
       = Inl OverlapError
   \<and> fst (placeHold exEnv exClock exHoldId2 exOneHold
            (exHoldParams ''2024-03-15T14:09:00.000Z'' ''2024-03-15T14:39:00.000Z''))
       = Inl OverlapError
   \<and> fst (placeHold exEnv exClock exHoldId2 exOneHold
            (exHoldParams ''2024-03-15T14:41:00.000Z'' ''2024-03-15T15:11:00.000Z''))
       = Inr exHoldId2
   \<and> fst (placeHold exEnv exClock exHoldId2 exOneHold
            (exHoldParams ''2024-03-15T13:19:00.000Z'' ''2024-03-15T13:49:00.000Z''))
       = Inr exHoldId2"
proof -
  have t: "getTime exEnv ''2024-03-15T13:51:00.000Z'' = Some 1710510660000"
    "getTime exEnv ''2024-03-15T14:21:00.000Z'' = Some 1710512460000"
    "getTime exEnv ''2024-03-15T14:09:00.000Z'' = Some 1710511740000"
    "getTime exEnv ''2024-03-15T14:39:00.000Z'' = Some 1710513540000"
    "getTime exEnv ''2024-03-15T14:41:00.000Z'' = Some 1710513660000"
    "getTime exEnv ''2024-03-15T15:11:00.000Z'' = Some 1710515460000"
    "getTime exEnv ''2024-03-15T13:19:00.000Z'' = Some 1710508740000"
    "getTime exEnv ''2024-03-15T13:49:00.000Z'' = Some 1710510540000"
    by (simp_all add: exEnv_simps exGetTime_def)
  have se: "(1710511200000::int) \<le> 1710513000000" by simp
  have ttl: "(300::int) \<le> 1800" "(1800::int) \<le> 1800" by simp_all
  have p: "exHoldParams x y =
     \<lparr>p_manager_id = exManager, p_start_utc = x, p_end_utc = y, p_ttl_seconds = 1800\<rparr>" for x y
    by (simp add: exHoldParams_def)
  show ?thesis
    using buffer_symmetry[OF exOneHold_live se ttl t(1) t(2) p, of exHoldId2]
      buffer_symmetry[OF exOneHold_live se ttl t(3) t(4) p, of exHoldId2]
      buffer_symmetry[OF exOneHold_live se ttl t(5) t(6) p, of exHoldId2]
      buffer_symmetry[OF exOneHold_live se ttl t(7) t(8) p, of exHoldId2]
      exOneHold_live
    by (simp add: exEnv_simps)
qed

end
